theory Spec2Isabelle
  imports Main "HOL-Library.Sublist"
begin

section \<open>Strings, bytes and thrown values\<close>

text \<open>
  A JavaScript string is a sequence of UTF-16 code units. The model works on
  \<^typ>\<open>string\<close>, that is on strings all of whose code units are below 256, one
  \<^typ>\<open>char\<close> per code unit. On that domain the regular-expression operators and
  \<^verbatim>\<open>toLowerCase\<close> used by the viewer are modelled exactly; the two line terminators
  U+2028 and U+2029 lie outside it.
\<close>

type_synonym bytes = "nat list"

text \<open>A value caught by \<^verbatim>\<open>catch (err)\<close>: an \<^verbatim>\<open>Error\<close> carrying its message, or
  any other thrown value.\<close>

datatype thrown = Error string | NonError

text \<open>The regular-expression atom \<^verbatim>\<open>.\<close> (no \<^verbatim>\<open>s\<close> flag) matches every code unit
  except a line terminator.\<close>

definition line_terminator :: "char \<Rightarrow> bool" where
  "line_terminator c \<longleftrightarrow> c = CHR 0x0A \<or> c = CHR 0x0D"

definition dquote :: string where
  "dquote = [CHR 0x22]"

section \<open>The embedded viewer: DOCX post-processing\<close>

text \<open>\<^verbatim>\<open>/_+/.test(text)\<close>: the search tries every start position; \<^verbatim>\<open>_+\<close> matches at a
  position exactly when an underscore stands there.\<close>

fun hasUnderscores :: "string \<Rightarrow> bool" where
  "hasUnderscores [] = False"
| "hasUnderscores (c # cs) = (if c = CHR ''_'' then True else hasUnderscores cs)"

text \<open>The greedy quantifier of \<^verbatim>\<open>_{3,}\<close> at the start of a string takes every
  underscore that stands there; \<open>underscore_run\<close> counts them.\<close>

fun underscore_run :: "string \<Rightarrow> nat" where
  "underscore_run [] = 0"
| "underscore_run (c # cs) = (if c = CHR ''_'' then Suc (underscore_run cs) else 0)"

text \<open>The inner callback:
  \<^verbatim>\<open>(underscores) => `<span class="underscore-field">${'_'.repeat(underscores.length)}</span>`\<close>.\<close>

definition underscore_field :: "string \<Rightarrow> string" where
  "underscore_field underscores =
     ''<span class='' @ dquote @ ''underscore-field'' @ dquote @ ''>''
       @ replicate (length underscores) CHR ''_'' @ ''</span>''"

text \<open>\<^verbatim>\<open>content.replace(/_{3,}/g, callback)\<close>: at each position the pattern either
  matches the whole run of underscores standing there (when it has at least three), and
  the search goes on behind the match, or it fails and the code unit is copied.\<close>

function replace_underscores :: "string \<Rightarrow> string" where
  "replace_underscores [] = []"
| "replace_underscores (c # cs) =
     (if 3 \<le> underscore_run (c # cs)
      then underscore_field (take (underscore_run (c # cs)) (c # cs))
             @ replace_underscores (drop (underscore_run (c # cs)) (c # cs))
      else c # replace_underscores cs)"
  by pat_completeness auto
termination
  by (relation "measure length") (auto split: if_splits)

text \<open>The outer callback. Its parameter is the first argument that \<^verbatim>\<open>replace\<close> passes to
  a callback, which is the whole matched text, tags included (the capture group would be
  the second argument).\<close>

definition paragraph_callback :: "string \<Rightarrow> string" where
  "paragraph_callback content = ''<p>'' @ replace_underscores content @ ''</p>''"

text \<open>\<^verbatim>\<open>(.*?)<\/p>\<close> at the start of a string: the lazy quantifier tries the closing tag
  first and takes one more code unit only when the tag is not there; a line terminator
  cannot be taken. The result is the length of the group.\<close>

fun lazy_group :: "string \<Rightarrow> nat option" where
  "lazy_group [] = None"
| "lazy_group (c # cs) =
     (if prefix ''</p>'' (c # cs) then Some 0
      else if line_terminator c then None
      else map_option Suc (lazy_group cs))"

text \<open>\<^verbatim>\<open>/<p>(.*?)<\/p>/\<close> at the start of a string: the length of the match.\<close>

definition match_paragraph :: "string \<Rightarrow> nat option" where
  "match_paragraph s =
     (if prefix ''<p>'' s then map_option (\<lambda>k. 3 + k + 4) (lazy_group (drop 3 s)) else None)"

text \<open>\<^verbatim>\<open>processedHtml.replace(/<p>(.*?)<\/p>/g, callback)\<close>.\<close>

function replace_paragraphs :: "string \<Rightarrow> string" where
  "replace_paragraphs [] = []"
| "replace_paragraphs (c # cs) =
     (case match_paragraph (c # cs) of
        Some n \<Rightarrow> paragraph_callback (take n (c # cs)) @ replace_paragraphs (drop n (c # cs))
      | None \<Rightarrow> c # replace_paragraphs cs)"
  by pat_completeness auto
termination
  by (relation "measure length") (auto simp: match_paragraph_def split: if_splits)

text \<open>Lines 80 to 91 of \<^verbatim>\<open>renderDocx\<close>: the value later stored as the content.\<close>

definition processedHtml :: "string \<Rightarrow> string \<Rightarrow> string" where
  "processedHtml html text =
     (if hasUnderscores text then replace_paragraphs html else html)"

section \<open>The embedded viewer: state and external capabilities\<close>

datatype file_kind = Docx | Xlsx

record sheet =
  name :: string
  html :: string

record file_data =
  kind :: file_kind
  fileName :: string
  sheets :: "sheet list option"

text \<open>The six \<^verbatim>\<open>useState\<close> cells of \<^verbatim>\<open>FileViewer\<close>.\<close>

record viewer_state =
  fileData :: "file_data option"
  content :: string
  excelSheets :: "sheet list"
  selectedSheetIndex :: nat
  loading :: bool
  error :: "string option"

definition initial_viewer :: viewer_state where
  "initial_viewer =
     \<lparr>fileData = None, content = [], excelSheets = [], selectedSheetIndex = 0,
      loading = True, error = None\<rparr>"

text \<open>A parsed workbook as SheetJS exposes it: the ordered sheet names and a table of
  worksheets keyed by name.\<close>

record 'ws workbook =
  SheetNames :: "string list"
  Sheets :: "string \<rightharpoonup> 'ws"

datatype mammoth_options = NoOptions | InlineImages

text \<open>A \<^verbatim>\<open>File\<close> picked in the standalone application.\<close>

record js_file =
  file_name :: string
  file_bytes :: bytes

text \<open>The library and platform functions the viewers call. They are not part of the
  repository and are taken as parameters; each but the last may throw. \<open>blob_url n\<close> is
  the URL that \<^verbatim>\<open>URL.createObjectURL\<close> mints when \<open>n\<close> object URLs are registered with
  the page.\<close>

record 'ws capabilities =
  atob :: "string \<Rightarrow> thrown + string"
  convertToHtml :: "mammoth_options \<Rightarrow> bytes \<Rightarrow> thrown + string"
  extractRawText :: "bytes \<Rightarrow> thrown + string"
  XLSX_read :: "bytes \<Rightarrow> thrown + 'ws workbook"
  sheet_to_html :: "'ws option \<Rightarrow> thrown + string"
  file_arrayBuffer :: "js_file \<Rightarrow> thrown + bytes"
  blob_url :: "nat \<Rightarrow> string"

text \<open>\<^verbatim>\<open>renderDocx\<close>: both conversions are awaited before any state cell is written, so a
  rejection leaves the state as it was.\<close>

definition renderDocx ::
  "'ws capabilities \<Rightarrow> bytes \<Rightarrow> string \<Rightarrow> viewer_state \<Rightarrow> thrown + viewer_state" where
  "renderDocx env arrayBuffer fname st =
     (case convertToHtml env InlineImages arrayBuffer of
        Inl e \<Rightarrow> Inl e
      | Inr htmlResult \<Rightarrow>
          (case extractRawText env arrayBuffer of
             Inl e \<Rightarrow> Inl e
           | Inr textResult \<Rightarrow>
               Inr (st\<lparr>fileData := Some \<lparr>kind = Docx, fileName = fname, sheets = None\<rparr>,
                       content := processedHtml htmlResult textResult\<rparr>)))"

text \<open>\<^verbatim>\<open>workbook.SheetNames.map(sheetName => ...)\<close>: for each name in order, the worksheet
  is looked up by that name in \<^verbatim>\<open>workbook.Sheets\<close> and converted; the first conversion that
  throws ends the whole map. The same code stands in \<^verbatim>\<open>renderExcel\<close> and in
  \<^verbatim>\<open>handleFileUpload\<close>.\<close>

fun convert_sheets :: "'ws capabilities \<Rightarrow> 'ws workbook \<Rightarrow> string list \<Rightarrow> thrown + sheet list" where
  "convert_sheets env wb [] = Inr []"
| "convert_sheets env wb (sheetName # rest) =
     (case sheet_to_html env (Sheets wb sheetName) of
        Inl e \<Rightarrow> Inl e
      | Inr htmlTable \<Rightarrow>
          (case convert_sheets env wb rest of
             Inl e \<Rightarrow> Inl e
           | Inr converted \<Rightarrow> Inr (\<lparr>name = sheetName, html = htmlTable\<rparr> # converted)))"

definition renderExcel ::
  "'ws capabilities \<Rightarrow> bytes \<Rightarrow> string \<Rightarrow> viewer_state \<Rightarrow> thrown + viewer_state" where
  "renderExcel env arrayBuffer fname st =
     (case XLSX_read env arrayBuffer of
        Inl e \<Rightarrow> Inl e
      | Inr wb \<Rightarrow>
          (case convert_sheets env wb (SheetNames wb) of
             Inl e \<Rightarrow> Inl e
           | Inr converted \<Rightarrow>
               Inr (st\<lparr>fileData := Some \<lparr>kind = Xlsx, fileName = fname, sheets = Some converted\<rparr>,
                       excelSheets := converted,
                       selectedSheetIndex := 0\<rparr>)))"

section \<open>The embedded viewer: the message handler\<close>

record flutter_message =
  msg_type :: string
  msg_fileType :: string
  msg_fileName :: string
  msg_fileData :: string

text \<open>The \<^verbatim>\<open>catch\<close> block of \<^verbatim>\<open>handleMessage\<close>.\<close>

definition handleMessage_catch :: "thrown \<Rightarrow> viewer_state \<Rightarrow> viewer_state" where
  "handleMessage_catch err st =
     st\<lparr>error := Some (case err of Error m \<Rightarrow> m | NonError \<Rightarrow> ''Unknown error occurred''),
        loading := False\<rparr>"

text \<open>\<^verbatim>\<open>handleMessage\<close> is an \<^verbatim>\<open>async\<close> function: it runs without interruption up to its
  first \<^verbatim>\<open>await\<close> on a pending promise and goes on when that promise settles; other
  messages may be handled in between. A \<open>pending_load\<close> is such a suspended call:
  \<^item> \<open>AwaitDocx\<close>: suspended in \<^verbatim>\<open>renderDocx\<close> on the conversion of the buffer, nothing of
    \<^verbatim>\<open>renderDocx\<close> written yet;
  \<^item> \<open>AwaitExcel\<close>: \<^verbatim>\<open>renderExcel\<close> has no \<^verbatim>\<open>await\<close> and has run to its end (or thrown);
    the call is suspended on its promise.\<close>

datatype pending_load = AwaitDocx bytes string | AwaitExcel "thrown option"

text \<open>The part of \<^verbatim>\<open>handleMessage\<close> that runs when the message arrives. The buffer is the
  list of the code units of the decoded string, as a \<^verbatim>\<open>Uint8Array\<close> holds them.\<close>

definition handleMessage_begin ::
  "'ws capabilities \<Rightarrow> flutter_message \<Rightarrow> viewer_state \<Rightarrow> viewer_state \<times> pending_load option" where
  "handleMessage_begin env msg st =
     (if msg_type msg = ''FILE_DATA'' then
        (let st1 = st\<lparr>loading := True, error := None\<rparr> in
         case atob env (msg_fileData msg) of
           Inl e \<Rightarrow> (handleMessage_catch e st1, None)
         | Inr byteCharacters \<Rightarrow>
             (let arrayBuffer = map (\<lambda>c. of_char c mod 256) byteCharacters in
              if msg_fileType msg = ''docx'' then
                (st1, Some (AwaitDocx arrayBuffer (msg_fileName msg)))
              else if msg_fileType msg = ''xlsx'' then
                (case renderExcel env arrayBuffer (msg_fileName msg) st1 of
                   Inl e \<Rightarrow> (st1, Some (AwaitExcel (Some e)))
                 | Inr st2 \<Rightarrow> (st2, Some (AwaitExcel None)))
              else (st1\<lparr>loading := False\<rparr>, None)))
      else (st, None))"

text \<open>The rest of \<^verbatim>\<open>handleMessage\<close>, run on the state of the moment the awaited promise
  settles.\<close>

fun handleMessage_resume ::
  "'ws capabilities \<Rightarrow> pending_load \<Rightarrow> viewer_state \<Rightarrow> viewer_state" where
  "handleMessage_resume env (AwaitDocx arrayBuffer fname) st =
     (case renderDocx env arrayBuffer fname st of
        Inl e \<Rightarrow> handleMessage_catch e st
      | Inr st' \<Rightarrow> st'\<lparr>loading := False\<rparr>)"
| "handleMessage_resume env (AwaitExcel None) st = st\<lparr>loading := False\<rparr>"
| "handleMessage_resume env (AwaitExcel (Some e)) st = handleMessage_catch e st"

text \<open>One message handled from arrival to the end with no other message in between.\<close>

definition handleMessage ::
  "'ws capabilities \<Rightarrow> flutter_message \<Rightarrow> viewer_state \<Rightarrow> viewer_state" where
  "handleMessage env msg st =
     (case handleMessage_begin env msg st of
        (st1, None) \<Rightarrow> st1
      | (st1, Some p) \<Rightarrow> handleMessage_resume env p st1)"

text \<open>The viewer with its suspended calls. A message event starts a call; \<open>Settle i\<close>
  resumes the \<open>i\<close>-th suspended call, whichever the runtime settles next.\<close>

record viewer_system =
  view :: viewer_state
  in_flight :: "pending_load list"

datatype viewer_event = Message flutter_message | Settle nat

fun viewer_step :: "'ws capabilities \<Rightarrow> viewer_event \<Rightarrow> viewer_system \<Rightarrow> viewer_system" where
  "viewer_step env (Message msg) sys =
     (case handleMessage_begin env msg (view sys) of
        (st1, None) \<Rightarrow> sys\<lparr>view := st1\<rparr>
      | (st1, Some p) \<Rightarrow> sys\<lparr>view := st1, in_flight := in_flight sys @ [p]\<rparr>)"
| "viewer_step env (Settle i) sys =
     (if i < length (in_flight sys)
      then sys\<lparr>view := handleMessage_resume env (in_flight sys ! i) (view sys),
               in_flight := take i (in_flight sys) @ drop (Suc i) (in_flight sys)\<rparr>
      else sys)"

fun viewer_run :: "'ws capabilities \<Rightarrow> viewer_event list \<Rightarrow> viewer_system \<Rightarrow> viewer_system" where
  "viewer_run env [] sys = sys"
| "viewer_run env (ev # evs) sys = viewer_run env evs (viewer_step env ev sys)"

section \<open>The embedded viewer: sheet selection\<close>

text \<open>The state setter that the sheet buttons call.\<close>

definition setSelectedSheetIndex :: "nat \<Rightarrow> viewer_state \<Rightarrow> viewer_state" where
  "setSelectedSheetIndex idx st = st\<lparr>selectedSheetIndex := idx\<rparr>"

text \<open>The indices \<open>idx\<close> for which the component renders a button with
  \<^verbatim>\<open>onClick={() => setSelectedSheetIndex(idx)}\<close>, following the chain of early returns of
  the render function (an empty error message is falsy).\<close>

definition sheet_buttons :: "viewer_state \<Rightarrow> nat list" where
  "sheet_buttons st =
     (if loading st then []
      else if (case error st of None \<Rightarrow> False | Some m \<Rightarrow> m \<noteq> []) then []
      else case fileData st of
        None \<Rightarrow> []
      | Some fd \<Rightarrow>
          if kind fd = Docx then []
          else if kind fd = Xlsx \<and> 0 < length (excelSheets st)
          then (if 1 < length (excelSheets st) then [0 ..< length (excelSheets st)] else [])
          else [])"

section \<open>The standalone application\<close>

text \<open>\<^verbatim>\<open>name.split('.')\<close>: the pieces between the separators; never an empty list (the last
  clause of the \<open>case\<close> is there for totality only).\<close>

fun split_string :: "string \<Rightarrow> char \<Rightarrow> string list" where
  "split_string [] sep = [[]]"
| "split_string (c # cs) sep =
     (if c = sep then [] # split_string cs sep
      else (case split_string cs sep of
              piece # pieces \<Rightarrow> (c # piece) # pieces
            | [] \<Rightarrow> [[c]]))"

text \<open>\<^verbatim>\<open>Array.prototype.pop\<close>: the last element, \<^verbatim>\<open>undefined\<close> on an empty array.\<close>

definition pop :: "'a list \<Rightarrow> 'a option" where
  "pop xs = (if xs = [] then None else Some (last xs))"

text \<open>\<^verbatim>\<open>toLowerCase\<close> on code units below 256: the letters A to Z and the accented capitals
  U+00C0 to U+00DE (the multiplication sign U+00D7 apart) move up by 32.\<close>

definition toLowerCase_unit :: "char \<Rightarrow> char" where
  "toLowerCase_unit c =
     (let n = (of_char c :: nat) in
      if (65 \<le> n \<and> n \<le> 90) \<or> (192 \<le> n \<and> n \<le> 222 \<and> n \<noteq> 215)
      then char_of (n + 32) else c)"

definition toLowerCase :: "string \<Rightarrow> string" where
  "toLowerCase s = map toLowerCase_unit s"

text \<open>\<^verbatim>\<open>toUpperCase\<close>, which the application calls only on the three lower-case words
  \<^verbatim>\<open>doc\<close>, \<^verbatim>\<open>ppt\<close> and \<^verbatim>\<open>pptx\<close>: the letters a to z move down by 32. (On the code units
  U+00B5, U+00DF and U+00FF the result in JavaScript is not one code unit below 256; they
  are left as they are here.)\<close>

definition toUpperCase_unit :: "char \<Rightarrow> char" where
  "toUpperCase_unit c =
     (let n = (of_char c :: nat) in
      if (97 \<le> n \<and> n \<le> 122) \<or> (224 \<le> n \<and> n \<le> 254 \<and> n \<noteq> 247)
      then char_of (n - 32) else c)"

definition toUpperCase :: "string \<Rightarrow> string" where
  "toUpperCase s = map toUpperCase_unit s"

text \<open>The \<^verbatim>\<open>useState\<close> cells of \<^verbatim>\<open>App\<close> (\<open>app_error\<close> is the cell \<^verbatim>\<open>error\<close>), and with them
  the object URLs registered with the page: \<^verbatim>\<open>URL.createObjectURL\<close> adds one,
  \<^verbatim>\<open>URL.revokeObjectURL\<close> would remove one.\<close>

record app_state =
  selectedFile :: "js_file option"
  fileContent :: string
  fileType :: string
  isLoading :: bool
  app_error :: string
  excelData :: "sheet list"
  objectURLs :: "string list"

definition initial_app :: app_state where
  "initial_app =
     \<lparr>selectedFile = None, fileContent = [], fileType = [], isLoading = False,
      app_error = [], excelData = [], objectURLs = []\<rparr>"

text \<open>The \<^verbatim>\<open>try\<close> block of \<^verbatim>\<open>handleFileUpload\<close>: the state reached, and the value thrown if
  the block was left by a throw.\<close>

definition handleFileUpload_try ::
  "'ws capabilities \<Rightarrow> js_file \<Rightarrow> app_state \<Rightarrow> app_state \<times> thrown option" where
  "handleFileUpload_try env f st =
     (let fileExtension = map_option toLowerCase (pop (split_string (file_name f) CHR ''.'')) in
      if fileExtension = Some ''docx'' then
        (let st1 = st\<lparr>fileType := ''word''\<rparr> in
         case file_arrayBuffer env f of
           Inl e \<Rightarrow> (st1, Some e)
         | Inr buf \<Rightarrow>
             (case convertToHtml env NoOptions buf of
                Inl e \<Rightarrow> (st1, Some e)
              | Inr result \<Rightarrow> (st1\<lparr>fileContent := result\<rparr>, None)))
      else if fileExtension = Some ''xlsx'' \<or> fileExtension = Some ''xls'' then
        (let st1 = st\<lparr>fileType := ''excel''\<rparr> in
         case file_arrayBuffer env f of
           Inl e \<Rightarrow> (st1, Some e)
         | Inr buf \<Rightarrow>
             (case XLSX_read env buf of
                Inl e \<Rightarrow> (st1, Some e)
              | Inr wb \<Rightarrow>
                  (case convert_sheets env wb (SheetNames wb) of
                     Inl e \<Rightarrow> (st1, Some e)
                   | Inr converted \<Rightarrow> (st1\<lparr>excelData := converted\<rparr>, None))))
      else if fileExtension = Some ''pdf'' then
        (let url = blob_url env (length (objectURLs st)) in
         (st\<lparr>fileType := ''pdf'', objectURLs := objectURLs st @ [url], fileContent := url\<rparr>,
          None))
      else if fileExtension = Some ''doc'' \<or> fileExtension = Some ''ppt''
              \<or> fileExtension = Some ''pptx'' then
        (st\<lparr>app_error := toUpperCase (case fileExtension of Some e \<Rightarrow> e | None \<Rightarrow> [])
              @ '' files require conversion. Please save as DOCX (for Word) or use Google Docs viewer.''\<rparr>,
         None)
      else
        (st\<lparr>app_error := ''Unsupported file type. Please upload .docx, .xlsx, .xls, or .pdf files.''\<rparr>,
         None))"

text \<open>\<^verbatim>\<open>handleFileUpload\<close>, with \<^verbatim>\<open>event.target.files?.[0]\<close> as its argument.\<close>

definition handleFileUpload ::
  "'ws capabilities \<Rightarrow> js_file option \<Rightarrow> app_state \<Rightarrow> app_state" where
  "handleFileUpload env picked st =
     (case picked of
        None \<Rightarrow> st
      | Some f \<Rightarrow>
          (let st0 = st\<lparr>app_error := [], isLoading := True, selectedFile := Some f,
                        fileContent := [], excelData := []\<rparr> in
           case handleFileUpload_try env f st0 of
             (st1, None) \<Rightarrow> st1\<lparr>isLoading := False\<rparr>
           | (st1, Some err) \<Rightarrow>
               st1\<lparr>app_error := ''Error loading file: ''
                                   @ (case err of Error m \<Rightarrow> m | NonError \<Rightarrow> ''Unknown error''),
                    isLoading := False\<rparr>))"

definition handleClearFile :: "app_state \<Rightarrow> app_state" where
  "handleClearFile st =
     st\<lparr>selectedFile := None, fileContent := [], excelData := [], fileType := [],
        app_error := []\<rparr>"

datatype app_event = Upload "js_file option" | Clear

fun app_step :: "'ws capabilities \<Rightarrow> app_event \<Rightarrow> app_state \<Rightarrow> app_state" where
  "app_step env (Upload picked) st = handleFileUpload env picked st"
| "app_step env Clear st = handleClearFile st"

fun app_run :: "'ws capabilities \<Rightarrow> app_event list \<Rightarrow> app_state \<Rightarrow> app_state" where
  "app_run env [] st = st"
| "app_run env (ev # evs) st = app_run env evs (app_step env ev st)"

section \<open>HTML fragments as blocks\<close>

text \<open>To state where paragraphs stand in a fragment: a fragment is written as a list of
  blocks, each a stretch of other markup followed by one \<^verbatim>\<open><p>...</p>\<close> element.
  \<open>processed_blocks\<close> is what the replacement pass makes of them. A paragraph is plain when
  its content holds no line terminator and no closing paragraph tag. Other markup is
  unmatched when the pattern \<^verbatim>\<open>/<p>(.*?)<\/p>/\<close> matches at none of its positions, even with a
  closing tag right behind it: it has no \<^verbatim>\<open><p>\<close>, or a line terminator comes before the
  next \<^verbatim>\<open></p>\<close>.\<close>

definition plain_paragraph :: "string \<Rightarrow> bool" where
  "plain_paragraph inner \<longleftrightarrow>
     (\<forall>c \<in> set inner. \<not> line_terminator c) \<and> \<not> sublist ''</p>'' inner"

fun unmatched :: "string \<Rightarrow> bool" where
  "unmatched [] = True"
| "unmatched (c # cs) = (match_paragraph ((c # cs) @ ''</p>'') = None \<and> unmatched cs)"

fun blocks :: "(string \<times> string) list \<Rightarrow> string" where
  "blocks [] = []"
| "blocks ((t, p) # ps) = t @ ''<p>'' @ p @ ''</p>'' @ blocks ps"

fun processed_blocks :: "(string \<times> string) list \<Rightarrow> string" where
  "processed_blocks [] = []"
| "processed_blocks ((t, p) # ps) =
     t @ ''<p><p>'' @ replace_underscores p @ ''</p></p>'' @ processed_blocks ps"

section \<open>A concrete instance\<close>

text \<open>A concrete instance of the capabilities, for evaluating the model: three
  documents and two workbooks, told apart by their single byte. The second workbook lists
  the name \<^verbatim>\<open>Data\<close> twice; its table of worksheets, keyed by name, holds one entry.\<close>

definition sample_capabilities :: "string capabilities" where
  "sample_capabilities =
     \<lparr>atob = (\<lambda>s. if s = ''!'' then Inl (Error ''bad base64'') else Inr s),
      convertToHtml = (\<lambda>opts b.
         if b = [49] then Inr ''<p>one</p>''
         else if b = [50] then Inr ''<p>a</p><p>b_c</p>''
         else if b = [51] then Inr ''<h1>Form</h1><p>Name: _____ (__)</p>''
         else Inl (Error ''not a docx'')),
      extractRawText = (\<lambda>b.
         if b = [49] then Inr ''one''
         else if b = [50] then Inr ''a b_c''
         else if b = [51] then Inr ''Form Name: _____ (__)''
         else Inl (Error ''not a docx'')),
      XLSX_read = (\<lambda>b.
         if b = [52] then Inr \<lparr>SheetNames = [''Sheet1'', ''Sheet2''],
                                 Sheets = [''Sheet1'' \<mapsto> ''x'', ''Sheet2'' \<mapsto> ''y'']\<rparr>
         else if b = [53] then Inr \<lparr>SheetNames = [''Data'', ''Data''],
                                      Sheets = [''Data'' \<mapsto> ''second'']\<rparr>
         else Inl (Error ''not a workbook'')),
      sheet_to_html = (\<lambda>w. case w of None \<Rightarrow> Inl NonError
                                   | Some x \<Rightarrow> Inr (''<table>'' @ x @ ''</table>'')),
      file_arrayBuffer = (\<lambda>f. Inr (file_bytes f)),
      blob_url = (\<lambda>n. ''blob:'' @ replicate (Suc n) CHR ''i'')\<rparr>"

text \<open>The same capabilities with a raw-text extraction that throws a value that is not
  an \<^verbatim>\<open>Error\<close>.\<close>

definition text_failing_capabilities :: "string capabilities" where
  "text_failing_capabilities = sample_capabilities\<lparr>extractRawText := (\<lambda>b. Inl NonError)\<rparr>"

definition two_sheets :: "sheet list" where
  "two_sheets = [\<lparr>name = ''Sheet1'', html = ''<table>x</table>''\<rparr>,
                 \<lparr>name = ''Sheet2'', html = ''<table>y</table>''\<rparr>]"

definition two_sheet_view :: viewer_state where
  "two_sheet_view =
     \<lparr>fileData = Some \<lparr>kind = Xlsx, fileName = ''b.xlsx'', sheets = Some two_sheets\<rparr>,
      content = [], excelSheets = two_sheets, selectedSheetIndex = 0,
      loading = False, error = None\<rparr>"

text \<open>A \<^verbatim>\<open>FILE_DATA\<close> message, and the viewer before any message.\<close>

definition file_data_message :: "string \<Rightarrow> string \<Rightarrow> string \<Rightarrow> flutter_message" where
  "file_data_message ftype fname payload =
     \<lparr>msg_type = ''FILE_DATA'', msg_fileType = ftype, msg_fileName = fname,
      msg_fileData = payload\<rparr>"

definition idle_viewer :: viewer_system where
  "idle_viewer = \<lparr>view = initial_viewer, in_flight = []\<rparr>"

section \<open>Properties of the DOCX post-processing\<close>

lemma hasUnderscores_iff: "hasUnderscores s \<longleftrightarrow> CHR ''_'' \<in> set s"
  by (induction s) auto

text \<open>
  Claim C3. When the extracted plain text contains no underscore, \<^verbatim>\<open>renderDocx\<close> stores
  the converter's HTML output as it is, code unit for code unit: no replacement pass runs.
\<close>

theorem renderDocx_no_underscore_identity:
  assumes "convertToHtml env InlineImages arrayBuffer = Inr htmlResult"
    and "extractRawText env arrayBuffer = Inr textResult"
    and "CHR ''_'' \<notin> set textResult"
  shows "renderDocx env arrayBuffer fname st =
           Inr (st\<lparr>fileData := Some \<lparr>kind = Docx, fileName = fname, sheets = None\<rparr>,
                   content := htmlResult\<rparr>)"
  using assms by (simp add: renderDocx_def processedHtml_def hasUnderscores_iff)

theorem renderDocx_no_underscore_identity_witness:
  "renderDocx sample_capabilities [49] ''a.docx'' initial_viewer =
     Inr (initial_viewer\<lparr>fileData := Some \<lparr>kind = Docx, fileName = ''a.docx'', sheets = None\<rparr>,
                          content := ''<p>one</p>''\<rparr>)"
proof -
  have h1: "convertToHtml sample_capabilities InlineImages [49] = Inr ''<p>one</p>''"
    by (simp add: sample_capabilities_def)
  have h2: "extractRawText sample_capabilities [49] = Inr ''one''"
    by (simp add: sample_capabilities_def)
  have h3: "CHR ''_'' \<notin> set ''one''"
    by simp
  show ?thesis
    by (rule renderDocx_no_underscore_identity [OF h1 h2 h3])
qed

subsection \<open>The underscore pass\<close>

lemma underscore_run_le: "underscore_run s \<le> length s"
  by (induction s) auto

lemma underscore_run_append:
  "a \<noteq> [] \<Longrightarrow> s = [] \<or> last a \<noteq> CHR ''_'' \<or> hd s \<noteq> CHR ''_'' \<Longrightarrow>
     underscore_run (a @ s) = underscore_run a"
proof (induction a)
  case Nil
  then show ?case by simp
next
  case (Cons c cs)
  show ?case
  proof (cases cs)
    case Nil
    with Cons.prems show ?thesis by (cases s) auto
  next
    case (Cons d ds)
    with Cons.IH Cons.prems show ?thesis by auto
  qed
qed

lemma underscore_run_replicate:
  "b = [] \<or> hd b \<noteq> CHR ''_'' \<Longrightarrow> underscore_run (replicate n CHR ''_'' @ b) = n"
  by (induction n) (cases b; auto)+

lemma take_within: "n \<le> length a \<Longrightarrow> take n (a @ s) = take n a"
  by simp

lemma drop_within: "n \<le> length a \<Longrightarrow> drop n (a @ s) = drop n a @ s"
  by simp

lemma replace_underscores_append:
  "a = [] \<or> s = [] \<or> last a \<noteq> CHR ''_'' \<or> hd s \<noteq> CHR ''_'' \<Longrightarrow>
     replace_underscores (a @ s) = replace_underscores a @ replace_underscores s"
proof (induction a rule: replace_underscores.induct)
  case 1
  then show ?case by simp
next
  case (2 c cs)
  let ?a = "c # cs"
  let ?n = "underscore_run ?a"
  from "2.prems" have run: "underscore_run (?a @ s) = ?n"
    by (intro underscore_run_append) auto
  have le: "?n \<le> length ?a" by (rule underscore_run_le)
  show ?case
  proof (cases "3 \<le> ?n")
    case True
    have tk: "take ?n (?a @ s) = take ?n ?a"
      by (rule take_within [OF le])
    have dr: "drop ?n (?a @ s) = drop ?n ?a @ s"
      by (rule drop_within [OF le])
    have bd: "drop ?n ?a = [] \<or> s = [] \<or> last (drop ?n ?a) \<noteq> CHR ''_'' \<or> hd s \<noteq> CHR ''_''"
      using "2.prems" by (cases "drop ?n ?a = []") auto
    have ih: "replace_underscores (drop ?n ?a @ s)
                = replace_underscores (drop ?n ?a) @ replace_underscores s"
      using "2.IH"(1) [OF True bd] .
    have "replace_underscores (?a @ s)
            = underscore_field (take ?n (?a @ s)) @ replace_underscores (drop ?n (?a @ s))"
      using True run by (simp del: take_append drop_append take_Cons' drop_Cons')
    then show ?thesis using True tk dr ih by (simp del: take_append drop_append)
  next
    case False
    have bd: "cs = [] \<or> s = [] \<or> last cs \<noteq> CHR ''_'' \<or> hd s \<noteq> CHR ''_''"
      using "2.prems" by (cases "cs = []") auto
    have ih: "replace_underscores (cs @ s) = replace_underscores cs @ replace_underscores s"
      using "2.IH"(2) [OF False bd] .
    have "replace_underscores (?a @ s) = c # replace_underscores (cs @ s)"
      using False run by simp
    then show ?thesis using False ih by simp
  qed
qed

lemma replace_underscores_run:
  assumes "b = [] \<or> hd b \<noteq> CHR ''_''"
  shows "replace_underscores (replicate n CHR ''_'' @ b) =
           (if 3 \<le> n then underscore_field (replicate n CHR ''_'') else replicate n CHR ''_'')
             @ replace_underscores b"
proof (cases "3 \<le> n")
  case True
  then obtain m where n: "n = Suc m" by (cases n) auto
  have run: "underscore_run (replicate n CHR ''_'' @ b) = n"
    by (rule underscore_run_replicate [OF assms])
  have "replace_underscores (CHR ''_'' # replicate m CHR ''_'' @ b) =
          underscore_field (take n (replicate n CHR ''_'' @ b))
            @ replace_underscores (drop n (replicate n CHR ''_'' @ b))"
    using True run unfolding n by (simp del: take_append drop_append)
  then show ?thesis using True n by simp
next
  case False
  then consider "n = 0" | "n = 1" | "n = 2" by linarith
  then show ?thesis
  proof cases
    case 1 then show ?thesis by simp
  next
    case 2 then show ?thesis using assms by (cases b) auto
  next
    case 3 then show ?thesis using assms by (cases b) (auto simp: numeral_2_eq_2)
  qed
qed

subsection \<open>The paragraph pass\<close>

lemma not_prefix_close:
  assumes "\<not> sublist ''</p>'' (c # cs)"
  shows "\<not> prefix ''</p>'' ((c # cs) @ ''</p>'' @ post)"
proof
  assume p: "prefix ''</p>'' ((c # cs) @ ''</p>'' @ post)"
  have "prefix ''</p>'' (c # cs)"
  proof (cases cs)
    case Nil
    with p show ?thesis by simp
  next
    case (Cons d ds)
    note c1 = this
    show ?thesis
    proof (cases ds)
      case Nil
      with p c1 show ?thesis by simp
    next
      case (Cons e es)
      note c2 = this
      show ?thesis
      proof (cases es)
        case Nil
        with p c1 c2 show ?thesis by simp
      next
        case (Cons f fs)
        with p c1 c2 show ?thesis by simp
      qed
    qed
  qed
  then have "sublist ''</p>'' (c # cs)" by (rule prefix_imp_sublist)
  with assms show False by contradiction
qed

lemma lazy_group_plain:
  "plain_paragraph inner \<Longrightarrow> lazy_group (inner @ ''</p>'' @ post) = Some (length inner)"
proof (induction inner)
  case Nil
  then show ?case by simp
next
  case (Cons c cs)
  from Cons.prems have ns: "\<not> sublist ''</p>'' (c # cs)" and nl: "\<not> line_terminator c"
    by (auto simp: plain_paragraph_def)
  from Cons.prems have "plain_paragraph cs"
    by (auto simp: plain_paragraph_def sublist_Cons_right)
  then have ih: "lazy_group (cs @ ''</p>'' @ post) = Some (length cs)"
    by (rule Cons.IH)
  have np: "\<not> prefix ''</p>'' ((c # cs) @ ''</p>'' @ post)"
    by (rule not_prefix_close [OF ns])
  have "lazy_group ((c # cs) @ ''</p>'' @ post) = map_option Suc (lazy_group (cs @ ''</p>'' @ post))"
    using np nl by (simp del: prefix_code)
  then show ?case using ih by simp
qed

lemma match_paragraph_plain:
  "plain_paragraph inner \<Longrightarrow>
     match_paragraph (''<p>'' @ inner @ ''</p>'' @ post) = Some (length inner + 7)"
  using lazy_group_plain [of inner post] by (simp add: match_paragraph_def)

lemma paragraph_callback_tags:
  "paragraph_callback (''<p>'' @ inner @ ''</p>'') =
     ''<p><p>'' @ replace_underscores inner @ ''</p></p>''"
proof -
  have 1: "replace_underscores (''<p>'' @ (inner @ ''</p>''))
             = replace_underscores ''<p>'' @ replace_underscores (inner @ ''</p>'')"
    by (rule replace_underscores_append) simp
  have 2: "replace_underscores (inner @ ''</p>'')
             = replace_underscores inner @ replace_underscores ''</p>''"
    by (rule replace_underscores_append) simp
  have 3: "replace_underscores ''<p>'' = ''<p>''" by simp
  have 4: "replace_underscores ''</p>'' = ''</p>''" by simp
  show ?thesis unfolding paragraph_callback_def 1 2 3 4 by simp
qed

lemma replace_paragraphs_plain:
  assumes "plain_paragraph inner"
  shows "replace_paragraphs (''<p>'' @ inner @ ''</p>'' @ post) =
           ''<p><p>'' @ replace_underscores inner @ ''</p></p>'' @ replace_paragraphs post"
proof -
  let ?m = "''<p>'' @ inner @ ''</p>''"
  have len: "length ?m = length inner + 7" by simp
  have m: "match_paragraph (?m @ post) = Some (length inner + 7)"
    using match_paragraph_plain [OF assms, of post] by simp
  have tk: "take (length inner + 7) (?m @ post) = ?m"
    using len by (metis append_eq_conv_conj)
  have dr: "drop (length inner + 7) (?m @ post) = post"
    using len by (metis append_eq_conv_conj)
  obtain c cs where cs: "?m @ post = c # cs" by simp
  have "replace_paragraphs (?m @ post) =
          paragraph_callback (take (length inner + 7) (?m @ post))
            @ replace_paragraphs (drop (length inner + 7) (?m @ post))"
    unfolding cs using m [unfolded cs] by simp
  then have "replace_paragraphs (?m @ post) = paragraph_callback ?m @ replace_paragraphs post"
    unfolding tk dr .
  then show ?thesis unfolding paragraph_callback_tags by simp
qed

lemma prefix_close_context:
  "prefix ''</p>'' ((c # cs) @ ''<p>'' @ s) \<Longrightarrow> prefix ''</p>'' ((c # cs) @ ''</p>'')"
proof (cases cs)
  case Nil
  assume "prefix ''</p>'' ((c # cs) @ ''<p>'' @ s)"
  with Nil show ?thesis by simp
next
  case (Cons d ds)
  note c1 = this
  assume p: "prefix ''</p>'' ((c # cs) @ ''<p>'' @ s)"
  show ?thesis
  proof (cases ds)
    case Nil
    with p c1 show ?thesis by simp
  next
    case (Cons e es)
    note c2 = this
    show ?thesis
    proof (cases es)
      case Nil
      with p c1 c2 show ?thesis by simp
    next
      case (Cons f fs)
      with p c1 c2 show ?thesis by simp
    qed
  qed
qed

lemma lazy_group_context:
  "lazy_group (v @ ''</p>'') = None \<Longrightarrow> lazy_group (v @ ''<p>'' @ s) = None"
proof (induction v)
  case Nil
  then show ?case by simp
next
  case (Cons c cs)
  from Cons.prems have np: "\<not> prefix ''</p>'' ((c # cs) @ ''</p>'')"
    by (auto split: if_splits simp del: prefix_code)
  then have np': "\<not> prefix ''</p>'' ((c # cs) @ ''<p>'' @ s)"
    using prefix_close_context by blast
  show ?case
  proof (cases "line_terminator c")
    case True
    with np' show ?thesis by (simp del: prefix_code)
  next
    case False
    with Cons.prems np have "lazy_group (cs @ ''</p>'') = None"
      by (simp del: prefix_code)
    then have "lazy_group (cs @ ''<p>'' @ s) = None" by (rule Cons.IH)
    with np' False show ?thesis by (simp del: prefix_code)
  qed
qed

lemma prefix_open_context:
  "prefix ''<p>'' ((c # cs) @ ''<p>'' @ s) \<Longrightarrow> \<exists>v. c # cs = ''<p>'' @ v"
proof (cases cs)
  case Nil
  assume "prefix ''<p>'' ((c # cs) @ ''<p>'' @ s)"
  with Nil show ?thesis by simp
next
  case (Cons d ds)
  note c1 = this
  assume p: "prefix ''<p>'' ((c # cs) @ ''<p>'' @ s)"
  show ?thesis
  proof (cases ds)
    case Nil
    with p c1 show ?thesis by simp
  next
    case (Cons e es)
    with p c1 show ?thesis by simp
  qed
qed

lemma match_paragraph_context:
  assumes "match_paragraph ((c # cs) @ ''</p>'') = None"
  shows "match_paragraph ((c # cs) @ ''<p>'' @ s) = None"
proof (cases "prefix ''<p>'' ((c # cs) @ ''<p>'' @ s)")
  case False
  then show ?thesis by (simp add: match_paragraph_def del: prefix_code)
next
  case True
  then obtain v where v: "c # cs = ''<p>'' @ v"
    using prefix_open_context by blast
  from assms have "lazy_group (v @ ''</p>'') = None"
    unfolding v by (simp add: match_paragraph_def)
  then have "lazy_group (v @ ''<p>'' @ s) = None" by (rule lazy_group_context)
  then show ?thesis unfolding v by (simp add: match_paragraph_def)
qed

lemma replace_paragraphs_skip:
  assumes "unmatched t"
  shows "replace_paragraphs (t @ ''<p>'' @ s) = t @ replace_paragraphs (''<p>'' @ s)"
  using assms
proof (induction t)
  case Nil
  then show ?case by simp
next
  case (Cons c cs)
  from Cons.prems have m: "match_paragraph ((c # cs) @ ''</p>'') = None" and u: "unmatched cs"
    by simp_all
  have "match_paragraph ((c # cs) @ ''<p>'' @ s) = None"
    by (rule match_paragraph_context [OF m])
  then have "replace_paragraphs ((c # cs) @ ''<p>'' @ s) = c # replace_paragraphs (cs @ ''<p>'' @ s)"
    by simp
  with Cons.IH [OF u] show ?case by simp
qed


lemma replace_paragraphs_blocks:
  assumes "\<forall>(t, p) \<in> set ps. unmatched t \<and> plain_paragraph p"
    and "unmatched u"
  shows "replace_paragraphs (blocks ps @ u @ ''<p>'' @ s) =
           processed_blocks ps @ u @ replace_paragraphs (''<p>'' @ s)"
  using assms(1)
proof (induction ps)
  case Nil
  show ?case using replace_paragraphs_skip [OF assms(2)] by simp
next
  case (Cons tp ps)
  obtain t p where tp: "tp = (t, p)" by (cases tp)
  from Cons.prems tp have t: "unmatched t" and p: "plain_paragraph p"
    and rest: "\<forall>(t, p) \<in> set ps. unmatched t \<and> plain_paragraph p"
    by auto
  let ?tail = "blocks ps @ u @ ''<p>'' @ s"
  have ih: "replace_paragraphs ?tail = processed_blocks ps @ u @ replace_paragraphs (''<p>'' @ s)"
    by (rule Cons.IH [OF rest])
  have "replace_paragraphs (blocks (tp # ps) @ u @ ''<p>'' @ s) =
          replace_paragraphs (t @ ''<p>'' @ (p @ ''</p>'' @ ?tail))"
    by (simp add: tp)
  also have "\<dots> = t @ replace_paragraphs (''<p>'' @ p @ ''</p>'' @ ?tail)"
    using replace_paragraphs_skip [OF t, of "p @ ''</p>'' @ ?tail"] by simp
  also have "\<dots> = t @ ''<p><p>'' @ replace_underscores p @ ''</p></p>''
                      @ replace_paragraphs ?tail"
    unfolding replace_paragraphs_plain [OF p] ..
  finally show ?case using ih by (simp add: tp)
qed

text \<open>
  Claim C1 (as amended). When the extracted plain text contains an underscore, then in
  every \<^verbatim>\<open><p>...</p>\<close> element whose content holds no line terminator an underscore run of
  length at least 3 is replaced by the marker span around exactly as many underscores, and
  a run of length 1 or 2 stays as it is. The element may stand anywhere: behind any number
  of earlier plain paragraphs and unmatched markup (\<open>blocks ps @ u\<close>) and before any rest.
  The run is delimited: \<open>a\<close> does not end and \<open>b\<close> does not begin with an underscore.
\<close>

theorem processedHtml_wraps_long_runs:
  assumes "CHR ''_'' \<in> set text"
    and "\<forall>(t, p) \<in> set ps. unmatched t \<and> plain_paragraph p"
    and "unmatched u"
    and "plain_paragraph (a @ replicate n CHR ''_'' @ b)"
    and "a = [] \<or> last a \<noteq> CHR ''_''"
    and "b = [] \<or> hd b \<noteq> CHR ''_''"
  shows "processedHtml
           (blocks ps @ u @ ''<p>'' @ a @ replicate n CHR ''_'' @ b @ ''</p>'' @ rest) text =
         processed_blocks ps @ u @ ''<p><p>'' @ replace_underscores a
           @ (if 3 \<le> n
              then ''<span class='' @ dquote @ ''underscore-field'' @ dquote @ ''>''
                     @ replicate n CHR ''_'' @ ''</span>''
              else replicate n CHR ''_'')
           @ replace_underscores b @ ''</p></p>'' @ replace_paragraphs rest"
proof -
  let ?run = "replicate n CHR ''_''"
  let ?inner = "a @ ?run @ b"
  have "processedHtml (blocks ps @ u @ ''<p>'' @ ?inner @ ''</p>'' @ rest) text =
          replace_paragraphs (blocks ps @ u @ ''<p>'' @ (?inner @ ''</p>'' @ rest))"
    using assms(1) by (simp add: processedHtml_def hasUnderscores_iff)
  also have "\<dots> = processed_blocks ps @ u @ replace_paragraphs (''<p>'' @ ?inner @ ''</p>'' @ rest)"
    by (rule replace_paragraphs_blocks [OF assms(2,3)])
  also have "\<dots> = processed_blocks ps @ u @ ''<p><p>'' @ replace_underscores ?inner
                      @ ''</p></p>'' @ replace_paragraphs rest"
    unfolding replace_paragraphs_plain [OF assms(4)] ..
  finally have 1: "processedHtml (blocks ps @ u @ ''<p>'' @ ?inner @ ''</p>'' @ rest) text =
      processed_blocks ps @ u @ ''<p><p>'' @ replace_underscores ?inner
        @ ''</p></p>'' @ replace_paragraphs rest" .
  have 2: "replace_underscores (a @ (?run @ b)) =
             replace_underscores a @ replace_underscores (?run @ b)"
  proof (cases n)
    case 0
    have "replace_underscores (a @ b) = replace_underscores a @ replace_underscores b"
      by (rule replace_underscores_append) (use assms(5,6) in auto)
    with 0 show ?thesis by simp
  next
    case (Suc m)
    show ?thesis by (rule replace_underscores_append) (use assms(5) in auto)
  qed
  have 3: "replace_underscores (?run @ b) =
             (if 3 \<le> n then underscore_field ?run else ?run) @ replace_underscores b"
    by (rule replace_underscores_run [OF assms(6)])
  have 4: "replace_underscores ?inner =
             replace_underscores a
               @ (if 3 \<le> n
                  then ''<span class='' @ dquote @ ''underscore-field'' @ dquote @ ''>''
                         @ ?run @ ''</span>''
                  else ?run)
               @ replace_underscores b"
    using 2 3 by (simp add: underscore_field_def)
  show ?thesis using 1 unfolding 4 by simp
qed

theorem processedHtml_wraps_long_runs_witness:
  "processedHtml
       ''<h1>Form</h1><p>Hi</p><hr/><p>x\<newline>y</p><p>Name: _____ (__)</p><p>end''
       ''FormHiName: _____ (__)'' =
     ''<h1>Form</h1><p><p>Hi</p></p><hr/><p>x\<newline>y</p><p><p>Name: <span class='' @ dquote
       @ ''underscore-field'' @ dquote @ ''>_____</span> (__)</p></p><p>end''"
proof -
  have h1: "CHR ''_'' \<in> set ''FormHiName: _____ (__)''"
    by simp
  have h2: "\<forall>(t, p) \<in> set [(''<h1>Form</h1>'', ''Hi'')]. unmatched t \<and> plain_paragraph p"
    by (simp add: plain_paragraph_def line_terminator_def sublist_Cons_right
        match_paragraph_def)
  have h3: "unmatched ''<hr/><p>x\<newline>y</p>''"
    by (simp add: match_paragraph_def line_terminator_def)
  have h4: "plain_paragraph (''Name: '' @ replicate 5 CHR ''_'' @ '' (__)'')"
    by (simp add: plain_paragraph_def line_terminator_def sublist_Cons_right numeral_eq_Suc)
  have h5: "''Name: '' = [] \<or> last ''Name: '' \<noteq> CHR ''_''"
    by simp
  have h6: "'' (__)'' = [] \<or> hd '' (__)'' \<noteq> CHR ''_''"
    by simp
  show ?thesis
    using processedHtml_wraps_long_runs [OF h1 h2 h3 h4 h5 h6, of "''<p>end''"]
    by (simp add: match_paragraph_def numeral_eq_Suc)
qed

text \<open>As stated, claim C1 fails: a paragraph whose content holds a line feed is not matched
  by \<^verbatim>\<open>/<p>(.*?)<\/p>/\<close>, and the run of three underscores in it is not wrapped.\<close>

theorem processedHtml_line_feed_counterexample:
  "processedHtml ''<p>a\<newline>___</p>'' ''a\<newline>___'' = ''<p>a\<newline>___</p>''"
  by (simp add: processedHtml_def match_paragraph_def line_terminator_def)

text \<open>
  Claim C2. The pass is to leave all markup as it was. On the converter output
  \<^verbatim>\<open><p>a</p><p>b_c</p>\<close> no run is long enough to get a marker span, and yet the result differs
  from the input: every matched paragraph comes out with its tags twice, since the callback
  receives the whole match and wraps it in \<^verbatim>\<open><p>\<close> and \<^verbatim>\<open></p>\<close> again.
\<close>

theorem processedHtml_doubles_paragraph_tags:
  "processedHtml ''<p>a</p><p>b_c</p>'' ''a b_c'' = ''<p><p>a</p></p><p><p>b_c</p></p>''"
  by (simp add: processedHtml_def match_paragraph_def line_terminator_def paragraph_callback_def)

section \<open>Properties of the spreadsheet conversion\<close>

lemma convert_sheets_names:
  "convert_sheets env wb names = Inr converted \<Longrightarrow> map name converted = names"
  by (induction names arbitrary: converted) (auto split: sum.splits)

lemma convert_sheets_html:
  "convert_sheets env wb names = Inr converted \<Longrightarrow> i < length names \<Longrightarrow>
     sheet_to_html env (Sheets wb (names ! i)) = Inr (html (converted ! i))"
proof (induction names arbitrary: converted i)
  case Nil
  then show ?case by simp
next
  case (Cons n ns)
  then show ?case by (cases i) (auto split: sum.splits)
qed

lemma renderExcel_Inr:
  assumes "XLSX_read env arrayBuffer = Inr wb"
    and "renderExcel env arrayBuffer fname st = Inr st'"
  obtains converted where "convert_sheets env wb (SheetNames wb) = Inr converted"
    and "st' = st\<lparr>fileData := Some \<lparr>kind = Xlsx, fileName = fname, sheets = Some converted\<rparr>,
                    excelSheets := converted, selectedSheetIndex := 0\<rparr>"
proof (cases "convert_sheets env wb (SheetNames wb)")
  case (Inl e)
  with assms have False by (simp add: renderExcel_def)
  then show ?thesis ..
next
  case (Inr converted)
  with assms have "st' = st\<lparr>fileData := Some \<lparr>kind = Xlsx, fileName = fname, sheets = Some converted\<rparr>,
                    excelSheets := converted, selectedSheetIndex := 0\<rparr>"
    by (simp add: renderExcel_def)
  with Inr that show ?thesis by blast
qed

text \<open>
  Claim C4 (as amended). When \<^verbatim>\<open>renderExcel\<close> succeeds, the stored list has one entry per
  entry of \<^verbatim>\<open>SheetNames\<close>, in that order, each with its name taken as it is; the content of
  an entry is the conversion of the worksheet found under its name in the table
  \<^verbatim>\<open>Sheets\<close>. So the content is resolved by name: two entries with the same name carry
  the same content. (\<^verbatim>\<open>handleFileUpload\<close> builds its list with the same \<open>convert_sheets\<close>.)
\<close>

theorem renderExcel_sheets_by_name:
  assumes "XLSX_read env arrayBuffer = Inr wb"
    and "renderExcel env arrayBuffer fname st = Inr st'"
  shows "length (excelSheets st') = length (SheetNames wb)
       \<and> map name (excelSheets st') = SheetNames wb
       \<and> (\<forall>i < length (SheetNames wb).
            sheet_to_html env (Sheets wb (SheetNames wb ! i)) = Inr (html (excelSheets st' ! i)))
       \<and> (\<forall>i < length (SheetNames wb). \<forall>j < length (SheetNames wb).
            SheetNames wb ! i = SheetNames wb ! j \<longrightarrow>
              html (excelSheets st' ! i) = html (excelSheets st' ! j))
       \<and> fileData st' = Some \<lparr>kind = Xlsx, fileName = fname, sheets = Some (excelSheets st')\<rparr>
       \<and> selectedSheetIndex st' = 0"
proof -
  from assms obtain converted where
    cs: "convert_sheets env wb (SheetNames wb) = Inr converted"
    and st': "st' = st\<lparr>fileData := Some \<lparr>kind = Xlsx, fileName = fname, sheets = Some converted\<rparr>,
                       excelSheets := converted, selectedSheetIndex := 0\<rparr>"
    by (rule renderExcel_Inr)
  have ex: "excelSheets st' = converted" by (simp add: st')
  have fd: "fileData st' = Some \<lparr>kind = Xlsx, fileName = fname, sheets = Some converted\<rparr>"
    by (simp add: st')
  have ix: "selectedSheetIndex st' = 0" by (simp add: st')
  have names: "map name converted = SheetNames wb"
    by (rule convert_sheets_names [OF cs])
  have len: "length converted = length (SheetNames wb)"
    using names by (metis length_map)
  have htmls: "\<forall>i < length (SheetNames wb).
      sheet_to_html env (Sheets wb (SheetNames wb ! i)) = Inr (html (converted ! i))"
    using convert_sheets_html [OF cs] by blast
  have same: "\<forall>i < length (SheetNames wb). \<forall>j < length (SheetNames wb).
            SheetNames wb ! i = SheetNames wb ! j \<longrightarrow> html (converted ! i) = html (converted ! j)"
  proof (intro allI impI)
    fix i j
    assume i: "i < length (SheetNames wb)" and j: "j < length (SheetNames wb)"
      and eq: "SheetNames wb ! i = SheetNames wb ! j"
    have "Inr (html (converted ! i)) = sheet_to_html env (Sheets wb (SheetNames wb ! i))"
      using htmls i by simp
    also have "\<dots> = Inr (html (converted ! j))"
      using htmls j eq by simp
    finally show "html (converted ! i) = html (converted ! j)" by simp
  qed
  show ?thesis unfolding ex fd ix using len names htmls same by blast
qed

theorem renderExcel_sheets_by_name_witness:
  "renderExcel sample_capabilities [52] ''b.xlsx'' initial_viewer
       = Inr (two_sheet_view\<lparr>loading := True\<rparr>)
   \<and> length (excelSheets (two_sheet_view\<lparr>loading := True\<rparr>)) = 2
   \<and> map name (excelSheets (two_sheet_view\<lparr>loading := True\<rparr>)) = [''Sheet1'', ''Sheet2'']"
proof -
  let ?wb = "\<lparr>SheetNames = [''Sheet1'', ''Sheet2''],
              Sheets = [''Sheet1'' \<mapsto> ''x'', ''Sheet2'' \<mapsto> ''y'']\<rparr>"
  have h1: "XLSX_read sample_capabilities [52] = Inr ?wb"
    by (simp add: sample_capabilities_def)
  have s1: "sheet_to_html sample_capabilities (Some ''x'') = Inr ''<table>x</table>''"
    by (simp add: sample_capabilities_def)
  have s2: "sheet_to_html sample_capabilities (Some ''y'') = Inr ''<table>y</table>''"
    by (simp add: sample_capabilities_def)
  have h2: "renderExcel sample_capabilities [52] ''b.xlsx'' initial_viewer
              = Inr (two_sheet_view\<lparr>loading := True\<rparr>)"
    by (simp add: renderExcel_def h1 s1 s2 two_sheet_view_def two_sheets_def initial_viewer_def)
  from renderExcel_sheets_by_name [OF h1 h2]
  have "length (excelSheets (two_sheet_view\<lparr>loading := True\<rparr>)) = length (SheetNames ?wb)"
    and "map name (excelSheets (two_sheet_view\<lparr>loading := True\<rparr>)) = SheetNames ?wb"
    by blast+
  with h2 show ?thesis by simp
qed

text \<open>
  As stated, claim C4 fails where it speaks of identical names: for a workbook that lists
  \<^verbatim>\<open>Data\<close> twice, both entries show the one worksheet the table holds under that name;
  there is no content by position.
\<close>

theorem renderExcel_duplicate_names_counterexample:
  "renderExcel sample_capabilities [53] ''d.xlsx'' initial_viewer =
     Inr (initial_viewer
            \<lparr>fileData := Some \<lparr>kind = Xlsx, fileName = ''d.xlsx'',
                 sheets = Some [\<lparr>name = ''Data'', html = ''<table>second</table>''\<rparr>,
                                \<lparr>name = ''Data'', html = ''<table>second</table>''\<rparr>]\<rparr>,
             excelSheets := [\<lparr>name = ''Data'', html = ''<table>second</table>''\<rparr>,
                             \<lparr>name = ''Data'', html = ''<table>second</table>''\<rparr>],
             selectedSheetIndex := 0\<rparr>)"
proof -
  have h1: "XLSX_read sample_capabilities [53] = Inr \<lparr>SheetNames = [''Data'', ''Data''],
              Sheets = [''Data'' \<mapsto> ''second'']\<rparr>"
    by (simp add: sample_capabilities_def)
  have h2: "sheet_to_html sample_capabilities (Some ''second'') = Inr ''<table>second</table>''"
    by (simp add: sample_capabilities_def)
  show ?thesis
    by (simp add: renderExcel_def h1 h2)
qed

section \<open>Properties of the message handler\<close>

text \<open>
  Claim C9. A message whose type is not \<^verbatim>\<open>FILE_DATA\<close> changes nothing: the six state cells
  stay as they were, and no call is left suspended.
\<close>

theorem handleMessage_other_type_ignored:
  assumes "msg_type msg \<noteq> ''FILE_DATA''"
  shows "handleMessage env msg st = st \<and> viewer_step env (Message msg) sys = sys"
  using assms by (simp add: handleMessage_def handleMessage_begin_def)

theorem handleMessage_other_type_ignored_witness:
  "handleMessage sample_capabilities
     \<lparr>msg_type = ''VIEWER_READY'', msg_fileType = ''docx'', msg_fileName = ''a.docx'',
      msg_fileData = ''1''\<rparr> two_sheet_view = two_sheet_view"
proof -
  have h: "msg_type \<lparr>msg_type = ''VIEWER_READY'', msg_fileType = ''docx'',
             msg_fileName = ''a.docx'', msg_fileData = ''1''\<rparr> \<noteq> ''FILE_DATA''"
    by simp
  from handleMessage_other_type_ignored [OF h] show ?thesis by blast
qed

text \<open>
  Claim C10 (as amended). A \<^verbatim>\<open>FILE_DATA\<close> message whose payload decodes and whose file type
  is neither \<^verbatim>\<open>docx\<close> nor \<^verbatim>\<open>xlsx\<close> ends, without suspension, with loading false and the
  error unset; file data, content, sheets and selected sheet index are as they were before
  the message. Nothing is stored by the message, and nothing that was stored is removed.
\<close>

theorem handleMessage_unknown_fileType:
  assumes "msg_type msg = ''FILE_DATA''"
    and "atob env (msg_fileData msg) = Inr byteCharacters"
    and "msg_fileType msg \<noteq> ''docx''" and "msg_fileType msg \<noteq> ''xlsx''"
  shows "handleMessage env msg st = st\<lparr>loading := False, error := None\<rparr>
       \<and> handleMessage_begin env msg st = (st\<lparr>loading := False, error := None\<rparr>, None)"
  using assms by (simp add: handleMessage_def handleMessage_begin_def)

theorem handleMessage_unknown_fileType_witness:
  "handleMessage sample_capabilities (file_data_message ''pdf'' ''c.pdf'' ''1'') initial_viewer
     = initial_viewer\<lparr>loading := False, error := None\<rparr>"
proof -
  let ?m = "file_data_message ''pdf'' ''c.pdf'' ''1''"
  have h1: "msg_type ?m = ''FILE_DATA''" by (simp add: file_data_message_def)
  have h2: "atob sample_capabilities (msg_fileData ?m) = Inr ''1''"
    by (simp add: file_data_message_def sample_capabilities_def)
  have h3: "msg_fileType ?m \<noteq> ''docx''" by (simp add: file_data_message_def)
  have h4: "msg_fileType ?m \<noteq> ''xlsx''" by (simp add: file_data_message_def)
  from handleMessage_unknown_fileType [OF h1 h2 h3 h4] show ?thesis by blast
qed

lemma sample_atob: "s \<noteq> ''!'' \<Longrightarrow> atob sample_capabilities s = Inr s"
  by (simp add: sample_capabilities_def)

lemma sample_docx_49:
  "renderDocx sample_capabilities [49] fname st =
     Inr (st\<lparr>fileData := Some \<lparr>kind = Docx, fileName = fname, sheets = None\<rparr>,
             content := ''<p>one</p>''\<rparr>)"
proof -
  have h1: "convertToHtml sample_capabilities InlineImages [49] = Inr ''<p>one</p>''"
    by (simp add: sample_capabilities_def)
  have h2: "extractRawText sample_capabilities [49] = Inr ''one''"
    by (simp add: sample_capabilities_def)
  show ?thesis by (simp add: renderDocx_def h1 h2 processedHtml_def)
qed

lemma sample_docx_50:
  "renderDocx sample_capabilities [50] fname st =
     Inr (st\<lparr>fileData := Some \<lparr>kind = Docx, fileName = fname, sheets = None\<rparr>,
             content := ''<p><p>a</p></p><p><p>b_c</p></p>''\<rparr>)"
proof -
  have h1: "convertToHtml sample_capabilities InlineImages [50] = Inr ''<p>a</p><p>b_c</p>''"
    by (simp add: sample_capabilities_def)
  have h2: "extractRawText sample_capabilities [50] = Inr ''a b_c''"
    by (simp add: sample_capabilities_def)
  have h3: "processedHtml ''<p>a</p><p>b_c</p>'' ''a b_c'' = ''<p><p>a</p></p><p><p>b_c</p></p>''"
    by (simp add: processedHtml_def match_paragraph_def line_terminator_def paragraph_callback_def)
  show ?thesis by (simp add: renderDocx_def h1 h2 h3)
qed

lemma begin_docx_message:
  "payload \<noteq> ''!'' \<Longrightarrow>
   handleMessage_begin sample_capabilities (file_data_message ''docx'' fname payload) st =
     (st\<lparr>loading := True, error := None\<rparr>,
      Some (AwaitDocx (map (\<lambda>c. of_char c mod 256) payload) fname))"
  by (simp add: handleMessage_begin_def file_data_message_def sample_atob)

text \<open>
  As stated, claim C10 fails: it has the viewer end with no content and no file data. After
  a document has been shown, such a message leaves that document's content and file data in
  place.
\<close>

theorem handleMessage_unknown_fileType_counterexample:
  "content (handleMessage sample_capabilities (file_data_message ''pdf'' ''c.pdf'' ''1'')
       (handleMessage sample_capabilities (file_data_message ''docx'' ''a.docx'' ''1'')
          initial_viewer)) = ''<p>one</p>''
   \<and> fileData (handleMessage sample_capabilities (file_data_message ''pdf'' ''c.pdf'' ''1'')
       (handleMessage sample_capabilities (file_data_message ''docx'' ''a.docx'' ''1'')
          initial_viewer)) = Some \<lparr>kind = Docx, fileName = ''a.docx'', sheets = None\<rparr>"
proof -
  have 1: "handleMessage sample_capabilities (file_data_message ''docx'' ''a.docx'' ''1'')
             initial_viewer =
           initial_viewer\<lparr>fileData := Some \<lparr>kind = Docx, fileName = ''a.docx'', sheets = None\<rparr>,
                           content := ''<p>one</p>'', loading := False\<rparr>"
    by (simp add: handleMessage_def begin_docx_message sample_docx_49 initial_viewer_def)
  have 2: "handleMessage sample_capabilities (file_data_message ''pdf'' ''c.pdf'' ''1'') st
             = st\<lparr>loading := False, error := None\<rparr>" for st
    by (simp add: handleMessage_def handleMessage_begin_def file_data_message_def sample_atob)
  show ?thesis unfolding 1 2 by simp
qed

text \<open>
  Claim C7 (as amended). A load carries no sequence token. When a suspended load settles,
  its outcome is written to the state of that moment, whatever has happened since the load
  began and whatever other loads are suspended, and the load leaves the list of suspended
  calls:
  \<^item> a \<^verbatim>\<open>docx\<close> load whose two conversions succeed writes its file data and content and
    sets loading false; the error cell stays as it is;
  \<^item> a \<^verbatim>\<open>docx\<close> load one of whose conversions throws writes the error message (the
    message of an \<^verbatim>\<open>Error\<close>, else \<^verbatim>\<open>Unknown error occurred\<close>) and sets loading false; file
    data and content stay as they are;
  \<^item> an \<^verbatim>\<open>xlsx\<close> load that did not throw sets loading false; one that threw writes the
    error message and sets loading false.
\<close>

theorem settle_applies_unconditionally:
  assumes "i < length (in_flight sys)"
  shows "in_flight (viewer_step env (Settle i) sys)
           = take i (in_flight sys) @ drop (Suc i) (in_flight sys)
       \<and> (\<forall>arrayBuffer fname htmlResult textResult.
            in_flight sys ! i = AwaitDocx arrayBuffer fname
            \<and> convertToHtml env InlineImages arrayBuffer = Inr htmlResult
            \<and> extractRawText env arrayBuffer = Inr textResult \<longrightarrow>
              view (viewer_step env (Settle i) sys) =
                (view sys)\<lparr>fileData := Some \<lparr>kind = Docx, fileName = fname, sheets = None\<rparr>,
                           content := processedHtml htmlResult textResult,
                           loading := False\<rparr>)
       \<and> (\<forall>arrayBuffer fname e.
            in_flight sys ! i = AwaitDocx arrayBuffer fname
            \<and> convertToHtml env InlineImages arrayBuffer = Inl e \<longrightarrow>
              view (viewer_step env (Settle i) sys) =
                (view sys)\<lparr>error := Some (case e of Error m \<Rightarrow> m
                                             | NonError \<Rightarrow> ''Unknown error occurred''),
                           loading := False\<rparr>)
       \<and> (\<forall>arrayBuffer fname htmlResult e.
            in_flight sys ! i = AwaitDocx arrayBuffer fname
            \<and> convertToHtml env InlineImages arrayBuffer = Inr htmlResult
            \<and> extractRawText env arrayBuffer = Inl e \<longrightarrow>
              view (viewer_step env (Settle i) sys) =
                (view sys)\<lparr>error := Some (case e of Error m \<Rightarrow> m
                                             | NonError \<Rightarrow> ''Unknown error occurred''),
                           loading := False\<rparr>)
       \<and> (in_flight sys ! i = AwaitExcel None \<longrightarrow>
              view (viewer_step env (Settle i) sys) = (view sys)\<lparr>loading := False\<rparr>)
       \<and> (\<forall>e. in_flight sys ! i = AwaitExcel (Some e) \<longrightarrow>
              view (viewer_step env (Settle i) sys) =
                (view sys)\<lparr>error := Some (case e of Error m \<Rightarrow> m
                                             | NonError \<Rightarrow> ''Unknown error occurred''),
                           loading := False\<rparr>)"
proof -
  have v: "view (viewer_step env (Settle i) sys)
             = handleMessage_resume env (in_flight sys ! i) (view sys)"
    using assms by simp
  have 1: "in_flight (viewer_step env (Settle i) sys)
           = take i (in_flight sys) @ drop (Suc i) (in_flight sys)"
    using assms by simp
  have 2: "handleMessage_resume env (AwaitDocx arrayBuffer fname) st =
             st\<lparr>fileData := Some \<lparr>kind = Docx, fileName = fname, sheets = None\<rparr>,
                content := processedHtml htmlResult textResult, loading := False\<rparr>"
    if "convertToHtml env InlineImages arrayBuffer = Inr htmlResult"
      and "extractRawText env arrayBuffer = Inr textResult"
    for arrayBuffer fname htmlResult textResult st
    using that by (simp add: renderDocx_def)
  have 3: "handleMessage_resume env (AwaitDocx arrayBuffer fname) st =
             st\<lparr>error := Some (case e of Error m \<Rightarrow> m | NonError \<Rightarrow> ''Unknown error occurred''),
                loading := False\<rparr>"
    if "convertToHtml env InlineImages arrayBuffer = Inl e"
    for arrayBuffer fname e st
    using that by (simp add: renderDocx_def handleMessage_catch_def)
  have 4: "handleMessage_resume env (AwaitDocx arrayBuffer fname) st =
             st\<lparr>error := Some (case e of Error m \<Rightarrow> m | NonError \<Rightarrow> ''Unknown error occurred''),
                loading := False\<rparr>"
    if "convertToHtml env InlineImages arrayBuffer = Inr htmlResult"
      and "extractRawText env arrayBuffer = Inl e"
    for arrayBuffer fname htmlResult e st
    using that by (simp add: renderDocx_def handleMessage_catch_def)
  have 5: "handleMessage_resume env (AwaitExcel None) st = st\<lparr>loading := False\<rparr>" for st
    by simp
  have 6: "handleMessage_resume env (AwaitExcel (Some e)) st =
             st\<lparr>error := Some (case e of Error m \<Rightarrow> m | NonError \<Rightarrow> ''Unknown error occurred''),
                loading := False\<rparr>" for e st
    by (simp add: handleMessage_catch_def)
  show ?thesis
  proof (intro conjI allI impI)
    show "in_flight (viewer_step env (Settle i) sys)
           = take i (in_flight sys) @ drop (Suc i) (in_flight sys)"
      by (rule 1)
  next
    fix arrayBuffer fname htmlResult textResult
    assume "in_flight sys ! i = AwaitDocx arrayBuffer fname
            \<and> convertToHtml env InlineImages arrayBuffer = Inr htmlResult
            \<and> extractRawText env arrayBuffer = Inr textResult"
    then show "view (viewer_step env (Settle i) sys) =
                (view sys)\<lparr>fileData := Some \<lparr>kind = Docx, fileName = fname, sheets = None\<rparr>,
                           content := processedHtml htmlResult textResult,
                           loading := False\<rparr>"
      unfolding v using 2 by simp
  next
    fix arrayBuffer fname e
    assume "in_flight sys ! i = AwaitDocx arrayBuffer fname
            \<and> convertToHtml env InlineImages arrayBuffer = Inl e"
    then show "view (viewer_step env (Settle i) sys) =
                (view sys)\<lparr>error := Some (case e of Error m \<Rightarrow> m
                                             | NonError \<Rightarrow> ''Unknown error occurred''),
                           loading := False\<rparr>"
      unfolding v using 3 by simp
  next
    fix arrayBuffer fname htmlResult e
    assume "in_flight sys ! i = AwaitDocx arrayBuffer fname
            \<and> convertToHtml env InlineImages arrayBuffer = Inr htmlResult
            \<and> extractRawText env arrayBuffer = Inl e"
    then show "view (viewer_step env (Settle i) sys) =
                (view sys)\<lparr>error := Some (case e of Error m \<Rightarrow> m
                                             | NonError \<Rightarrow> ''Unknown error occurred''),
                           loading := False\<rparr>"
      unfolding v using 4 by simp
  next
    assume "in_flight sys ! i = AwaitExcel None"
    then show "view (viewer_step env (Settle i) sys) = (view sys)\<lparr>loading := False\<rparr>"
      unfolding v by simp
  next
    fix e
    assume "in_flight sys ! i = AwaitExcel (Some e)"
    then show "view (viewer_step env (Settle i) sys) =
                (view sys)\<lparr>error := Some (case e of Error m \<Rightarrow> m
                                             | NonError \<Rightarrow> ''Unknown error occurred''),
                           loading := False\<rparr>"
      unfolding v using 6 by simp
  qed
qed

theorem settle_applies_unconditionally_witness:
  "view (viewer_step sample_capabilities (Settle 0)
      \<lparr>view = two_sheet_view, in_flight = [AwaitDocx [49] ''first.docx'']\<rparr>) =
     two_sheet_view\<lparr>fileData := Some \<lparr>kind = Docx, fileName = ''first.docx'', sheets = None\<rparr>,
                     content := ''<p>one</p>'', loading := False\<rparr>
   \<and> view (viewer_step sample_capabilities (Settle 1)
      \<lparr>view = two_sheet_view,
       in_flight = [AwaitDocx [49] ''first.docx'', AwaitDocx [] ''bad.docx'']\<rparr>) =
     two_sheet_view\<lparr>error := Some ''not a docx'', loading := False\<rparr>
   \<and> view (viewer_step text_failing_capabilities (Settle 0)
      \<lparr>view = two_sheet_view, in_flight = [AwaitDocx [49] ''first.docx'']\<rparr>) =
     two_sheet_view\<lparr>error := Some ''Unknown error occurred'', loading := False\<rparr>
   \<and> view (viewer_step sample_capabilities (Settle 0)
      \<lparr>view = initial_viewer, in_flight = [AwaitExcel None]\<rparr>) =
     initial_viewer\<lparr>loading := False\<rparr>
   \<and> view (viewer_step sample_capabilities (Settle 0)
      \<lparr>view = two_sheet_view, in_flight = [AwaitExcel (Some (Error ''not a workbook''))]\<rparr>) =
     two_sheet_view\<lparr>error := Some ''not a workbook'', loading := False\<rparr>
   \<and> in_flight (viewer_step sample_capabilities (Settle 1)
      \<lparr>view = two_sheet_view,
       in_flight = [AwaitDocx [49] ''first.docx'', AwaitDocx [] ''bad.docx'']\<rparr>) =
     [AwaitDocx [49] ''first.docx'']"
proof -
  let ?s1 = "\<lparr>view = two_sheet_view, in_flight = [AwaitDocx [49] ''first.docx'']\<rparr>"
  let ?s2 = "\<lparr>view = two_sheet_view,
               in_flight = [AwaitDocx [49] ''first.docx'', AwaitDocx [] ''bad.docx'']\<rparr>"
  let ?s3 = "\<lparr>view = initial_viewer, in_flight = [AwaitExcel None]\<rparr>"
  let ?s4 = "\<lparr>view = two_sheet_view,
               in_flight = [AwaitExcel (Some (Error ''not a workbook''))]\<rparr>"
  have l1: "0 < length (in_flight ?s1)" by simp
  have l2: "1 < length (in_flight ?s2)" by simp
  have l3: "0 < length (in_flight ?s3)" by simp
  have l4: "0 < length (in_flight ?s4)" by simp
  have n1: "in_flight ?s1 ! 0 = AwaitDocx [49] ''first.docx''" by simp
  have n2: "in_flight ?s2 ! 1 = AwaitDocx [] ''bad.docx''" by simp
  have n3: "in_flight ?s3 ! 0 = AwaitExcel None" by simp
  have n4: "in_flight ?s4 ! 0 = AwaitExcel (Some (Error ''not a workbook''))" by simp
  have c1: "convertToHtml sample_capabilities InlineImages [49] = Inr ''<p>one</p>''"
    by (simp add: sample_capabilities_def)
  have c2: "extractRawText sample_capabilities [49] = Inr ''one''"
    by (simp add: sample_capabilities_def)
  have c3: "convertToHtml sample_capabilities InlineImages [] = Inl (Error ''not a docx'')"
    by (simp add: sample_capabilities_def)
  have c4: "convertToHtml text_failing_capabilities InlineImages [49] = Inr ''<p>one</p>''"
    by (simp add: text_failing_capabilities_def c1)
  have c5: "extractRawText text_failing_capabilities [49] = Inl NonError"
    by (simp add: text_failing_capabilities_def)
  have p: "processedHtml ''<p>one</p>'' ''one'' = ''<p>one</p>''"
    by (simp add: processedHtml_def)
  from settle_applies_unconditionally [OF l1, of sample_capabilities] n1 c1 c2
  have "view (viewer_step sample_capabilities (Settle 0) ?s1) =
          (view ?s1)\<lparr>fileData := Some \<lparr>kind = Docx, fileName = ''first.docx'', sheets = None\<rparr>,
                      content := processedHtml ''<p>one</p>'' ''one'', loading := False\<rparr>"
    by blast
  then have a: "view (viewer_step sample_capabilities (Settle 0) ?s1) =
          two_sheet_view\<lparr>fileData := Some \<lparr>kind = Docx, fileName = ''first.docx'', sheets = None\<rparr>,
                      content := ''<p>one</p>'', loading := False\<rparr>"
    unfolding p by simp
  from settle_applies_unconditionally [OF l2, of sample_capabilities] n2 c3
  have "view (viewer_step sample_capabilities (Settle 1) ?s2) =
          (view ?s2)\<lparr>error := Some (case Error ''not a docx'' of Error m \<Rightarrow> m
                                        | NonError \<Rightarrow> ''Unknown error occurred''),
                      loading := False\<rparr>"
    by blast
  then have b: "view (viewer_step sample_capabilities (Settle 1) ?s2) =
          two_sheet_view\<lparr>error := Some ''not a docx'', loading := False\<rparr>"
    by simp
  from settle_applies_unconditionally [OF l1, of text_failing_capabilities] n1 c4 c5
  have "view (viewer_step text_failing_capabilities (Settle 0) ?s1) =
          (view ?s1)\<lparr>error := Some (case NonError of Error m \<Rightarrow> m
                                        | NonError \<Rightarrow> ''Unknown error occurred''),
                      loading := False\<rparr>"
    by blast
  then have c: "view (viewer_step text_failing_capabilities (Settle 0) ?s1) =
          two_sheet_view\<lparr>error := Some ''Unknown error occurred'', loading := False\<rparr>"
    by simp
  from settle_applies_unconditionally [OF l3, of sample_capabilities] n3
  have "view (viewer_step sample_capabilities (Settle 0) ?s3) = (view ?s3)\<lparr>loading := False\<rparr>"
    by blast
  then have d: "view (viewer_step sample_capabilities (Settle 0) ?s3) =
          initial_viewer\<lparr>loading := False\<rparr>"
    by simp
  from settle_applies_unconditionally [OF l4, of sample_capabilities] n4
  have "view (viewer_step sample_capabilities (Settle 0) ?s4) =
          (view ?s4)\<lparr>error := Some (case Error ''not a workbook'' of Error m \<Rightarrow> m
                                        | NonError \<Rightarrow> ''Unknown error occurred''),
                      loading := False\<rparr>"
    by blast
  then have e: "view (viewer_step sample_capabilities (Settle 0) ?s4) =
          two_sheet_view\<lparr>error := Some ''not a workbook'', loading := False\<rparr>"
    by simp
  from settle_applies_unconditionally [OF l2, of sample_capabilities]
  have "in_flight (viewer_step sample_capabilities (Settle 1) ?s2) =
          take 1 (in_flight ?s2) @ drop (Suc 1) (in_flight ?s2)"
    by blast
  then have f: "in_flight (viewer_step sample_capabilities (Settle 1) ?s2) =
          [AwaitDocx [49] ''first.docx'']"
    by simp
  show ?thesis using a b c d e f by blast
qed

text \<open>
  As stated, claim C7 fails: a first load begins, a second load begins and settles, and then
  the first settles. The view showed the second document and ends showing the first.
\<close>

theorem stale_load_overwrites_counterexample:
  "fileData (view (viewer_run sample_capabilities
      [Message (file_data_message ''docx'' ''first.docx'' ''1''),
       Message (file_data_message ''docx'' ''second.docx'' ''2''),
       Settle 1] idle_viewer))
     = Some \<lparr>kind = Docx, fileName = ''second.docx'', sheets = None\<rparr>
   \<and> fileData (view (viewer_run sample_capabilities
      [Message (file_data_message ''docx'' ''first.docx'' ''1''),
       Message (file_data_message ''docx'' ''second.docx'' ''2''),
       Settle 1, Settle 0] idle_viewer))
     = Some \<lparr>kind = Docx, fileName = ''first.docx'', sheets = None\<rparr>
   \<and> content (view (viewer_run sample_capabilities
      [Message (file_data_message ''docx'' ''first.docx'' ''1''),
       Message (file_data_message ''docx'' ''second.docx'' ''2''),
       Settle 1, Settle 0] idle_viewer))
     = ''<p>one</p>''"
  by (simp add: begin_docx_message sample_docx_49 sample_docx_50 idle_viewer_def)

section \<open>Properties of the sheet selection\<close>

text \<open>
  Claim C6 (as amended). The component offers a selection button only for indices within
  the bounds of the sheet list, and a selection writes the selected sheet index and no
  other cell. The setter itself has no bounds check.
\<close>

theorem sheet_button_selection_in_bounds:
  assumes "idx \<in> set (sheet_buttons st)"
  shows "idx < length (excelSheets st)
       \<and> selectedSheetIndex (setSelectedSheetIndex idx st) = idx
       \<and> fileData (setSelectedSheetIndex idx st) = fileData st
       \<and> content (setSelectedSheetIndex idx st) = content st
       \<and> excelSheets (setSelectedSheetIndex idx st) = excelSheets st
       \<and> loading (setSelectedSheetIndex idx st) = loading st
       \<and> error (setSelectedSheetIndex idx st) = error st"
proof -
  have "idx < length (excelSheets st)"
    using assms by (auto simp: sheet_buttons_def split: if_splits option.splits)
  then show ?thesis by (simp add: setSelectedSheetIndex_def)
qed

theorem sheet_button_selection_in_bounds_witness:
  "1 \<in> set (sheet_buttons two_sheet_view)
   \<and> 1 < length (excelSheets two_sheet_view)
   \<and> selectedSheetIndex (setSelectedSheetIndex 1 two_sheet_view) = 1"
proof -
  have h: "1 \<in> set (sheet_buttons two_sheet_view)"
    by (simp add: sheet_buttons_def two_sheet_view_def two_sheets_def)
  from sheet_button_selection_in_bounds [OF h] h show ?thesis by blast
qed

text \<open>
  As stated, claim C6 fails: with two sheets, selecting index 5 through the setter is not a
  no-op; the selected sheet index becomes 5.
\<close>

theorem setSelectedSheetIndex_out_of_range_counterexample:
  "length (excelSheets two_sheet_view) = 2
   \<and> selectedSheetIndex two_sheet_view = 0
   \<and> selectedSheetIndex (setSelectedSheetIndex 5 two_sheet_view) = 5"
  by (simp add: setSelectedSheetIndex_def two_sheet_view_def two_sheets_def)

section \<open>Properties of the standalone application\<close>

lemma split_string_single: "sep \<notin> set s \<Longrightarrow> split_string s sep = [s]"
  by (induction s) auto

lemma split_string_not_Nil: "split_string s sep \<noteq> []"
  by (induction s) (auto split: list.splits)

lemma split_string_append:
  "split_string (stem @ sep # ext) sep = split_string stem sep @ split_string ext sep"
proof (induction stem)
  case Nil
  then show ?case by simp
next
  case (Cons c cs)
  obtain piece pieces where "split_string cs sep = piece # pieces"
    using split_string_not_Nil [of cs sep] by (cases "split_string cs sep") auto
  with Cons show ?case by simp
qed

lemma last_split_string_append:
  "last (split_string (stem @ sep # ext) sep) = last (split_string ext sep)"
  by (simp add: split_string_append split_string_not_Nil)

lemma pop_split_string:
  assumes "nm = stem @ [sep] @ ext \<or> nm = ext" and "sep \<notin> set ext"
  shows "pop (split_string nm sep) = Some ext"
proof -
  have "last (split_string nm sep) = ext"
    using assms last_split_string_append [of stem sep ext]
    by (auto simp: split_string_single)
  then show ?thesis by (simp add: pop_def split_string_not_Nil)
qed

lemma toUpperCase_doc: "toUpperCase ''doc'' = ''DOC''"
  by code_simp

lemma toUpperCase_ppt: "toUpperCase ''ppt'' = ''PPT''"
  by code_simp

lemma toUpperCase_pptx: "toUpperCase ''pptx'' = ''PPTX''"
  by code_simp

lemma handleFileUpload_Some:
  "handleFileUpload env (Some f) st =
     (case handleFileUpload_try env f
             (st\<lparr>app_error := [], isLoading := True, selectedFile := Some f,
                 fileContent := [], excelData := []\<rparr>) of
        (st1, None) \<Rightarrow> st1\<lparr>isLoading := False\<rparr>
      | (st1, Some err) \<Rightarrow>
          st1\<lparr>app_error := ''Error loading file: ''
                              @ (case err of Error m \<Rightarrow> m | NonError \<Rightarrow> ''Unknown error''),
               isLoading := False\<rparr>)"
  by (simp add: handleFileUpload_def Let_def)

lemma try_docx:
  assumes "pop (split_string (file_name f) CHR ''.'') = Some ext" and "toLowerCase ext = ''docx''"
  shows "handleFileUpload_try env f st =
        (case file_arrayBuffer env f of
           Inl e \<Rightarrow> (st\<lparr>fileType := ''word''\<rparr>, Some e)
         | Inr buf \<Rightarrow>
             (case convertToHtml env NoOptions buf of
                Inl e \<Rightarrow> (st\<lparr>fileType := ''word''\<rparr>, Some e)
              | Inr result \<Rightarrow> (st\<lparr>fileType := ''word'', fileContent := result\<rparr>, None)))"
  using assms by (simp add: handleFileUpload_try_def Let_def)

lemma try_excel:
  assumes "pop (split_string (file_name f) CHR ''.'') = Some ext"
    and "toLowerCase ext = ''xlsx'' \<or> toLowerCase ext = ''xls''"
  shows "handleFileUpload_try env f st =
        (case file_arrayBuffer env f of
           Inl e \<Rightarrow> (st\<lparr>fileType := ''excel''\<rparr>, Some e)
         | Inr buf \<Rightarrow>
             (case XLSX_read env buf of
                Inl e \<Rightarrow> (st\<lparr>fileType := ''excel''\<rparr>, Some e)
              | Inr wb \<Rightarrow>
                  (case convert_sheets env wb (SheetNames wb) of
                     Inl e \<Rightarrow> (st\<lparr>fileType := ''excel''\<rparr>, Some e)
                   | Inr converted \<Rightarrow> (st\<lparr>fileType := ''excel'', excelData := converted\<rparr>, None))))"
  using assms by (auto simp add: handleFileUpload_try_def Let_def)

lemma try_pdf:
  assumes "pop (split_string (file_name f) CHR ''.'') = Some ext" and "toLowerCase ext = ''pdf''"
  shows "handleFileUpload_try env f st =
           (st\<lparr>fileType := ''pdf'',
               objectURLs := objectURLs st @ [blob_url env (length (objectURLs st))],
               fileContent := blob_url env (length (objectURLs st))\<rparr>, None)"
  using assms by (simp add: handleFileUpload_try_def Let_def)

lemma try_legacy:
  assumes "pop (split_string (file_name f) CHR ''.'') = Some ext"
    and "toLowerCase ext = ''doc'' \<or> toLowerCase ext = ''ppt'' \<or> toLowerCase ext = ''pptx''"
  shows "handleFileUpload_try env f st =
           (st\<lparr>app_error := toUpperCase (toLowerCase ext)
              @ '' files require conversion. Please save as DOCX (for Word) or use Google Docs viewer.''\<rparr>,
            None)"
  using assms by (auto simp add: handleFileUpload_try_def Let_def)

lemma try_other:
  assumes "pop (split_string (file_name f) CHR ''.'') = Some ext"
    and "toLowerCase ext \<notin> {''docx'', ''xlsx'', ''xls'', ''pdf'', ''doc'', ''ppt'', ''pptx''}"
  shows "handleFileUpload_try env f st =
           (st\<lparr>app_error := ''Unsupported file type. Please upload .docx, .xlsx, .xls, or .pdf files.''\<rparr>,
            None)"
  using assms by (simp add: handleFileUpload_try_def Let_def)

text \<open>
  Claim C5. The extension of a file name is what follows its last dot (\<open>ext\<close>, the whole
  name when there is no dot), compared without regard to case. \<^verbatim>\<open>handleFileUpload\<close> takes
  exactly one of five ways by it: \<^verbatim>\<open>docx\<close> sets the type \<^verbatim>\<open>word\<close> and converts the document;
  \<^verbatim>\<open>xlsx\<close> and \<^verbatim>\<open>xls\<close> set the type \<^verbatim>\<open>excel\<close> and convert the sheets; \<^verbatim>\<open>pdf\<close> sets the type
  \<^verbatim>\<open>pdf\<close> and stores an object URL; \<^verbatim>\<open>doc\<close>, \<^verbatim>\<open>ppt\<close> and \<^verbatim>\<open>pptx\<close> give the message that
  names the extension and asks for conversion; every other extension gives the message
  that names the accepted formats.
\<close>

theorem handleFileUpload_dispatch:
  assumes "file_name f = stem @ ''.'' @ ext \<or> file_name f = ext"
    and "CHR ''.'' \<notin> set ext"
  shows "(toLowerCase ext = ''docx'' \<longrightarrow>
            fileType (handleFileUpload env (Some f) st) = ''word''
          \<and> excelData (handleFileUpload env (Some f) st) = []
          \<and> (\<forall>buf result. file_arrayBuffer env f = Inr buf
                \<and> convertToHtml env NoOptions buf = Inr result \<longrightarrow>
                  fileContent (handleFileUpload env (Some f) st) = result
                \<and> app_error (handleFileUpload env (Some f) st) = []))
       \<and> (toLowerCase ext = ''xlsx'' \<or> toLowerCase ext = ''xls'' \<longrightarrow>
            fileType (handleFileUpload env (Some f) st) = ''excel''
          \<and> fileContent (handleFileUpload env (Some f) st) = []
          \<and> (\<forall>buf wb converted. file_arrayBuffer env f = Inr buf
                \<and> XLSX_read env buf = Inr wb
                \<and> convert_sheets env wb (SheetNames wb) = Inr converted \<longrightarrow>
                  excelData (handleFileUpload env (Some f) st) = converted
                \<and> app_error (handleFileUpload env (Some f) st) = []))
       \<and> (toLowerCase ext = ''pdf'' \<longrightarrow>
            fileType (handleFileUpload env (Some f) st) = ''pdf''
          \<and> fileContent (handleFileUpload env (Some f) st) = blob_url env (length (objectURLs st))
          \<and> excelData (handleFileUpload env (Some f) st) = []
          \<and> app_error (handleFileUpload env (Some f) st) = [])
       \<and> (toLowerCase ext = ''doc'' \<or> toLowerCase ext = ''ppt'' \<or> toLowerCase ext = ''pptx'' \<longrightarrow>
            app_error (handleFileUpload env (Some f) st) =
              (if toLowerCase ext = ''doc'' then ''DOC''
               else if toLowerCase ext = ''ppt'' then ''PPT'' else ''PPTX'')
              @ '' files require conversion. Please save as DOCX (for Word) or use Google Docs viewer.''
          \<and> fileType (handleFileUpload env (Some f) st) = fileType st
          \<and> fileContent (handleFileUpload env (Some f) st) = []
          \<and> excelData (handleFileUpload env (Some f) st) = [])
       \<and> (toLowerCase ext \<notin> {''docx'', ''xlsx'', ''xls'', ''pdf'', ''doc'', ''ppt'', ''pptx''} \<longrightarrow>
            app_error (handleFileUpload env (Some f) st) =
              ''Unsupported file type. Please upload .docx, .xlsx, .xls, or .pdf files.''
          \<and> fileType (handleFileUpload env (Some f) st) = fileType st
          \<and> fileContent (handleFileUpload env (Some f) st) = []
          \<and> excelData (handleFileUpload env (Some f) st) = [])"
proof -
  have p: "pop (split_string (file_name f) CHR ''.'') = Some ext"
    using assms by (intro pop_split_string [where stem = stem]) auto
  note up = handleFileUpload_Some
  have docx: "fileType (handleFileUpload env (Some f) st) = ''word''
          \<and> excelData (handleFileUpload env (Some f) st) = []
          \<and> (\<forall>buf result. file_arrayBuffer env f = Inr buf
                \<and> convertToHtml env NoOptions buf = Inr result \<longrightarrow>
                  fileContent (handleFileUpload env (Some f) st) = result
                \<and> app_error (handleFileUpload env (Some f) st) = [])"
    if "toLowerCase ext = ''docx''"
    by (auto simp: up try_docx [OF p that] split: sum.splits)
  have excel: "fileType (handleFileUpload env (Some f) st) = ''excel''
          \<and> fileContent (handleFileUpload env (Some f) st) = []
          \<and> (\<forall>buf wb converted. file_arrayBuffer env f = Inr buf
                \<and> XLSX_read env buf = Inr wb
                \<and> convert_sheets env wb (SheetNames wb) = Inr converted \<longrightarrow>
                  excelData (handleFileUpload env (Some f) st) = converted
                \<and> app_error (handleFileUpload env (Some f) st) = [])"
    if "toLowerCase ext = ''xlsx'' \<or> toLowerCase ext = ''xls''"
    by (auto simp: up try_excel [OF p that] split: sum.splits)
  have pdf: "fileType (handleFileUpload env (Some f) st) = ''pdf''
          \<and> fileContent (handleFileUpload env (Some f) st) = blob_url env (length (objectURLs st))
          \<and> excelData (handleFileUpload env (Some f) st) = []
          \<and> app_error (handleFileUpload env (Some f) st) = []"
    if "toLowerCase ext = ''pdf''"
    by (simp add: up try_pdf [OF p that])
  have legacy: "app_error (handleFileUpload env (Some f) st) =
              (if toLowerCase ext = ''doc'' then ''DOC''
               else if toLowerCase ext = ''ppt'' then ''PPT'' else ''PPTX'')
              @ '' files require conversion. Please save as DOCX (for Word) or use Google Docs viewer.''
          \<and> fileType (handleFileUpload env (Some f) st) = fileType st
          \<and> fileContent (handleFileUpload env (Some f) st) = []
          \<and> excelData (handleFileUpload env (Some f) st) = []"
    if l: "toLowerCase ext = ''doc'' \<or> toLowerCase ext = ''ppt'' \<or> toLowerCase ext = ''pptx''"
  proof -
    have u: "toUpperCase (toLowerCase ext) =
               (if toLowerCase ext = ''doc'' then ''DOC''
                else if toLowerCase ext = ''ppt'' then ''PPT'' else ''PPTX'')"
      using l toUpperCase_doc toUpperCase_ppt toUpperCase_pptx by auto
    show ?thesis
      unfolding up try_legacy [OF p l] u by simp
  qed
  have other: "app_error (handleFileUpload env (Some f) st) =
              ''Unsupported file type. Please upload .docx, .xlsx, .xls, or .pdf files.''
          \<and> fileType (handleFileUpload env (Some f) st) = fileType st
          \<and> fileContent (handleFileUpload env (Some f) st) = []
          \<and> excelData (handleFileUpload env (Some f) st) = []"
    if "toLowerCase ext \<notin> {''docx'', ''xlsx'', ''xls'', ''pdf'', ''doc'', ''ppt'', ''pptx''}"
    by (simp add: up try_other [OF p that])
  show ?thesis
    using docx excel pdf legacy other by blast
qed

theorem handleFileUpload_dispatch_witness:
  "fileType (handleFileUpload sample_capabilities
       (Some \<lparr>file_name = ''Report.DocX'', file_bytes = [49]\<rparr>) initial_app) = ''word''
   \<and> fileContent (handleFileUpload sample_capabilities
       (Some \<lparr>file_name = ''Report.DocX'', file_bytes = [49]\<rparr>) initial_app) = ''<p>one</p>''
   \<and> app_error (handleFileUpload sample_capabilities
       (Some \<lparr>file_name = ''slides.PPT'', file_bytes = []\<rparr>) initial_app) =
       ''PPT files require conversion. Please save as DOCX (for Word) or use Google Docs viewer.''
   \<and> app_error (handleFileUpload sample_capabilities
       (Some \<lparr>file_name = ''notes.txt'', file_bytes = []\<rparr>) initial_app) =
       ''Unsupported file type. Please upload .docx, .xlsx, .xls, or .pdf files.''
   \<and> fileType (handleFileUpload sample_capabilities
       (Some \<lparr>file_name = ''scan.v2.PDF'', file_bytes = [37]\<rparr>) initial_app) = ''pdf''
   \<and> fileContent (handleFileUpload sample_capabilities
       (Some \<lparr>file_name = ''scan.v2.PDF'', file_bytes = [37]\<rparr>) initial_app) = ''blob:i''
   \<and> fileType (handleFileUpload sample_capabilities
       (Some \<lparr>file_name = ''xls'', file_bytes = [52]\<rparr>) initial_app) = ''excel''
   \<and> excelData (handleFileUpload sample_capabilities
       (Some \<lparr>file_name = ''xls'', file_bytes = [52]\<rparr>) initial_app) = two_sheets"
proof -
  let ?f = "\<lparr>file_name = ''Report.DocX'', file_bytes = [49]\<rparr>"
  let ?g = "\<lparr>file_name = ''slides.PPT'', file_bytes = []\<rparr>"
  let ?h = "\<lparr>file_name = ''notes.txt'', file_bytes = []\<rparr>"
  have f1: "file_name ?f = ''Report'' @ ''.'' @ ''DocX'' \<or> file_name ?f = ''DocX''" by simp
  have f2: "CHR ''.'' \<notin> set ''DocX''" by simp
  have f3: "toLowerCase ''DocX'' = ''docx''" by code_simp
  have f4: "file_arrayBuffer sample_capabilities ?f = Inr [49]"
    by (simp add: sample_capabilities_def)
  have f5: "convertToHtml sample_capabilities NoOptions [49] = Inr ''<p>one</p>''"
    by (simp add: sample_capabilities_def)
  have g1: "file_name ?g = ''slides'' @ ''.'' @ ''PPT'' \<or> file_name ?g = ''PPT''" by simp
  have g2: "CHR ''.'' \<notin> set ''PPT''" by simp
  have g3: "toLowerCase ''PPT'' = ''ppt''" by code_simp
  have h1: "file_name ?h = ''notes'' @ ''.'' @ ''txt'' \<or> file_name ?h = ''txt''" by simp
  have h2: "CHR ''.'' \<notin> set ''txt''" by simp
  have h3: "toLowerCase ''txt'' = ''txt''" by code_simp
  from handleFileUpload_dispatch [OF f1 f2, of sample_capabilities initial_app] f3 f4 f5
  have a: "fileType (handleFileUpload sample_capabilities (Some ?f) initial_app) = ''word''"
    and b: "fileContent (handleFileUpload sample_capabilities (Some ?f) initial_app) = ''<p>one</p>''"
    by blast+
  from handleFileUpload_dispatch [OF g1 g2, of sample_capabilities initial_app]
  have c: "app_error (handleFileUpload sample_capabilities (Some ?g) initial_app) =
       ''PPT files require conversion. Please save as DOCX (for Word) or use Google Docs viewer.''"
    unfolding g3 by simp
  from handleFileUpload_dispatch [OF h1 h2, of sample_capabilities initial_app]
  have d: "app_error (handleFileUpload sample_capabilities (Some ?h) initial_app) =
       ''Unsupported file type. Please upload .docx, .xlsx, .xls, or .pdf files.''"
    unfolding h3 by simp
  let ?p = "\<lparr>file_name = ''scan.v2.PDF'', file_bytes = [37]\<rparr>"
  let ?x = "\<lparr>file_name = ''xls'', file_bytes = [52]\<rparr>"
  let ?wb = "\<lparr>SheetNames = [''Sheet1'', ''Sheet2''],
              Sheets = [''Sheet1'' \<mapsto> ''x'', ''Sheet2'' \<mapsto> ''y'']\<rparr>"
  have p1: "file_name ?p = ''scan.v2'' @ ''.'' @ ''PDF'' \<or> file_name ?p = ''PDF''" by simp
  have p2: "CHR ''.'' \<notin> set ''PDF''" by simp
  have p3: "toLowerCase ''PDF'' = ''pdf''" by code_simp
  have p4: "blob_url sample_capabilities (length (objectURLs initial_app)) = ''blob:i''"
    by (simp add: sample_capabilities_def initial_app_def)
  have x1: "file_name ?x = [] @ ''.'' @ ''xls'' \<or> file_name ?x = ''xls''" by simp
  have x2: "CHR ''.'' \<notin> set ''xls''" by simp
  have x3: "toLowerCase ''xls'' = ''xls''" by code_simp
  have x4: "file_arrayBuffer sample_capabilities ?x = Inr [52]"
    by (simp add: sample_capabilities_def)
  have x5: "XLSX_read sample_capabilities [52] = Inr ?wb"
    by (simp add: sample_capabilities_def)
  have s1: "sheet_to_html sample_capabilities (Some ''x'') = Inr ''<table>x</table>''"
    by (simp add: sample_capabilities_def)
  have s2: "sheet_to_html sample_capabilities (Some ''y'') = Inr ''<table>y</table>''"
    by (simp add: sample_capabilities_def)
  have x6: "convert_sheets sample_capabilities ?wb (SheetNames ?wb) = Inr two_sheets"
    by (simp add: s1 s2 two_sheets_def)
  from handleFileUpload_dispatch [OF p1 p2, of sample_capabilities initial_app] p3
  have a': "fileType (handleFileUpload sample_capabilities (Some ?p) initial_app) = ''pdf''"
    and b': "fileContent (handleFileUpload sample_capabilities (Some ?p) initial_app) = ''blob:i''"
    unfolding p4 by blast+
  from handleFileUpload_dispatch [OF x1 x2, of sample_capabilities initial_app] x3 x4 x5 x6
  have c': "fileType (handleFileUpload sample_capabilities (Some ?x) initial_app) = ''excel''"
    and d': "excelData (handleFileUpload sample_capabilities (Some ?x) initial_app) = two_sheets"
    by blast+
  show ?thesis using a b c d a' b' c' d' by blast
qed

lemma handleFileUpload_try_objectURLs:
  "prefix (objectURLs st) (objectURLs (fst (handleFileUpload_try env f st)))"
  by (simp add: handleFileUpload_try_def Let_def split: sum.splits)

lemma handleFileUpload_objectURLs:
  "prefix (objectURLs st) (objectURLs (handleFileUpload env picked st))"
proof (cases picked)
  case None
  then show ?thesis by (simp add: handleFileUpload_def)
next
  case (Some f)
  let ?st0 = "st\<lparr>app_error := [], isLoading := True, selectedFile := Some f,
                 fileContent := [], excelData := []\<rparr>"
  have "prefix (objectURLs ?st0) (objectURLs (fst (handleFileUpload_try env f ?st0)))"
    by (rule handleFileUpload_try_objectURLs)
  then show ?thesis
    unfolding Some handleFileUpload_Some
    by (cases "handleFileUpload_try env f ?st0"; cases "snd (handleFileUpload_try env f ?st0)")
       simp_all
qed

lemma app_step_objectURLs: "prefix (objectURLs st) (objectURLs (app_step env ev st))"
  by (cases ev) (simp_all add: handleFileUpload_objectURLs handleClearFile_def)

text \<open>
  Claim C8 (as amended). The application never revokes an object URL: whatever files are
  picked and however often the view is cleared, every URL registered with the page stays
  registered, in its place. Clearing the view or loading another file only drops the
  reference that the state holds. (No URL is revoked twice, none being revoked at all.)
\<close>

theorem object_urls_never_revoked:
  "prefix (objectURLs st) (objectURLs (app_run env evs st))"
proof (induction evs arbitrary: st)
  case Nil
  then show ?case by simp
next
  case (Cons ev evs)
  have "prefix (objectURLs st) (objectURLs (app_step env ev st))"
    by (rule app_step_objectURLs)
  also have "prefix \<dots> (objectURLs (app_run env evs (app_step env ev st)))"
    by (rule Cons.IH)
  finally show ?case by simp
qed

lemma sample_upload_pdf:
  "handleFileUpload sample_capabilities (Some \<lparr>file_name = ''a.pdf'', file_bytes = bs\<rparr>) st =
     st\<lparr>app_error := [], isLoading := False,
        selectedFile := Some \<lparr>file_name = ''a.pdf'', file_bytes = bs\<rparr>,
        excelData := [], fileType := ''pdf'',
        objectURLs := objectURLs st @ [''blob:'' @ replicate (Suc (length (objectURLs st))) CHR ''i''],
        fileContent := ''blob:'' @ replicate (Suc (length (objectURLs st))) CHR ''i''\<rparr>"
proof -
  let ?f = "\<lparr>file_name = ''a.pdf'', file_bytes = bs\<rparr>"
  have p: "pop (split_string (file_name ?f) CHR ''.'') = Some ''pdf''"
    by (rule pop_split_string [where stem = "''a''"]) simp_all
  have l: "toLowerCase ''pdf'' = ''pdf''"
    by code_simp
  have b: "blob_url sample_capabilities n = ''blob:'' @ replicate (Suc n) CHR ''i''" for n
    by (simp add: sample_capabilities_def)
  show ?thesis
    by (simp add: handleFileUpload_Some try_pdf [OF p l] b)
qed

text \<open>
  As stated, claim C8 fails: after a PDF is loaded and the view cleared, the state is the
  initial one again and the URL is still registered; after a PDF is loaded and superseded
  by another, both URLs are registered.
\<close>

theorem object_url_left_registered_counterexample:
  "app_run sample_capabilities
     [Upload (Some \<lparr>file_name = ''a.pdf'', file_bytes = [37]\<rparr>), Clear] initial_app
     = initial_app\<lparr>objectURLs := [''blob:i'']\<rparr>
   \<and> objectURLs (app_run sample_capabilities
        [Upload (Some \<lparr>file_name = ''a.pdf'', file_bytes = [37]\<rparr>),
         Upload (Some \<lparr>file_name = ''a.pdf'', file_bytes = [38]\<rparr>)] initial_app)
     = [''blob:i'', ''blob:ii'']"
  by (simp add: sample_upload_pdf handleClearFile_def initial_app_def)

end
